theory Spec2Isabelle
  imports Main "HOL-Library.Sublist"
begin

section \<open>Python strings\<close>

text \<open>
  A Python \<open>str\<close> is modelled as a \<open>string\<close> (a list of \<open>char\<close>), one \<open>char\<close> per code
  point; the model therefore covers the strings whose code points are below 256.
\<close>

definition newline :: char where
  "newline = CHR 0x0A"

definition tab :: char where
  "tab = CHR 0x09"

text \<open>\<open>str.isspace\<close> on one character, for the code points below 256.\<close>

definition py_isspace :: "char \<Rightarrow> bool" where
  "py_isspace c =
     (let n = (of_char c :: nat)
      in (9 \<le> n \<and> n \<le> 13) \<or> (28 \<le> n \<and> n \<le> 32) \<or> n = 133 \<or> n = 160)"

text \<open>\<open>s.strip(chars)\<close>: drop the leading and the trailing characters that are in the set.\<close>

definition py_strip_chars :: "(char \<Rightarrow> bool) \<Rightarrow> string \<Rightarrow> string" where
  "py_strip_chars P s = rev (dropWhile P (rev (dropWhile P s)))"

text \<open>\<open>s.strip()\<close> strips whitespace.\<close>

definition py_strip :: "string \<Rightarrow> string" where
  "py_strip s = py_strip_chars py_isspace s"

text \<open>\<open>s.split(sep)\<close> for a separator of one character; the result is never empty.\<close>

fun py_split :: "char \<Rightarrow> string \<Rightarrow> string list" where
  "py_split sep [] = [[]]"
| "py_split sep (c # cs) =
     (if c = sep then [] # py_split sep cs
      else (case py_split sep cs of
              [] \<Rightarrow> [[c]]
            | w # ws \<Rightarrow> (c # w) # ws))"

text \<open>\<open>s.replace(old, new)\<close> where \<open>old\<close> and \<open>new\<close> are single characters.\<close>

definition py_replace :: "char \<Rightarrow> char \<Rightarrow> string \<Rightarrow> string" where
  "py_replace old new s = map (\<lambda>c. if c = old then new else c) s"

text \<open>\<open>a <= b\<close> on strings: lexicographic on code points.\<close>

fun py_str_le :: "string \<Rightarrow> string \<Rightarrow> bool" where
  "py_str_le [] _ = True"
| "py_str_le (x # xs) [] = False"
| "py_str_le (x # xs) (y # ys) =
     (if (of_char x :: nat) < of_char y then True
      else if x = y then py_str_le xs ys
      else False)"

text \<open>\<open>os.path.dirname\<close> of \<open>posixpath\<close>: the head up to the last slash, with the
  trailing slashes removed unless the head consists of slashes only.\<close>

definition dirname_head :: "string \<Rightarrow> string" where
  "dirname_head p = rev (dropWhile (\<lambda>c. c \<noteq> CHR ''/'') (rev p))"

definition os_path_dirname :: "string \<Rightarrow> string" where
  "os_path_dirname p =
     (let head = dirname_head p
      in if head \<noteq> [] \<and> \<not> list_all (\<lambda>c. c = CHR ''/'') head
         then rev (dropWhile (\<lambda>c. c = CHR ''/'') (rev head))
         else head)"

section \<open>Errors and log records\<close>

datatype py_error = ValueError | KeyError | IndexError

datatype log_record = Warning string | Error string

section \<open>The regular expression of \<open>new_from_ldconfig\<close>\<close>

text \<open>
  \<open>re.match(r"^(.*) \((.*)\) => (.*)$", line)\<close> is run by a backtracking matcher. Each
  piece of the pattern is a function from the rest of the input to an optional result;
  a piece takes the matcher of what follows it as its continuation.

  \<open>dot_star k\<close> is a greedy group \<open>(.*)\<close> followed by \<open>k\<close>: the dot matches every
  character but the newline, the longest run is tried first and then every shorter one.
\<close>

fun dot_star :: "(string \<Rightarrow> 'a option) \<Rightarrow> string \<Rightarrow> (string \<times> 'a) option" where
  "dot_star k [] = map_option (Pair []) (k [])"
| "dot_star k (c # cs) =
     (if c = newline then map_option (Pair []) (k (c # cs))
      else (case dot_star k cs of
              Some (g, r) \<Rightarrow> Some (c # g, r)
            | None \<Rightarrow> map_option (Pair []) (k (c # cs))))"

text \<open>A literal piece of the pattern.\<close>

definition lit :: "string \<Rightarrow> (string \<Rightarrow> 'a option) \<Rightarrow> string \<Rightarrow> 'a option" where
  "lit p k s = (if prefix p s then k (drop (length p) s) else None)"

text \<open>\<open>$\<close> matches at the end of the string and just before a newline that ends it.\<close>

definition dollar :: "string \<Rightarrow> unit option" where
  "dollar s = (if s = [] \<or> s = [newline] then Some () else None)"

definition re_match_ldconfig :: "string \<Rightarrow> (string \<times> string \<times> string) option" where
  "re_match_ldconfig line =
     (case dot_star (lit '' ('' (dot_star (lit '') => '' (dot_star dollar)))) line of
        None \<Rightarrow> None
      | Some (g1, g2, g3, _) \<Rightarrow> Some (g1, g2, g3))"

section \<open>SharedLibrary\<close>

record SharedLibrary =
  name :: string
  flags :: "string list"
  path :: string

definition default_arch :: string where
  "default_arch = ''i386''"

definition SharedLibrary_init :: "string \<Rightarrow> string \<Rightarrow> string \<Rightarrow> SharedLibrary" where
  "SharedLibrary_init n fl p =
     \<lparr>name = n, flags = map py_strip (py_split CHR '','' fl), path = p\<rparr>"

definition new_from_ldconfig :: "string \<Rightarrow> py_error + SharedLibrary" where
  "new_from_ldconfig ldconfig_line =
     (case re_match_ldconfig ldconfig_line of
        None \<Rightarrow> Inl ValueError
      | Some (g1, g2, g3) \<Rightarrow> Inr (SharedLibrary_init g1 g2 g3))"

definition detected_arch :: "string list" where
  "detected_arch = [''x86-64'', ''x32'']"

text \<open>The loop of the \<open>arch\<close> property over \<open>detected_arch\<close>.\<close>

fun arch_loop :: "string list \<Rightarrow> string list \<Rightarrow> string" where
  "arch_loop [] fl = default_arch"
| "arch_loop (a # as) fl =
     (if a \<in> set fl then py_replace CHR ''-'' CHR ''_'' a else arch_loop as fl)"

definition SharedLibrary_arch :: "SharedLibrary \<Rightarrow> string" where
  "SharedLibrary_arch lib = arch_loop detected_arch (flags lib)"

definition SharedLibrary_dirname :: "SharedLibrary \<Rightarrow> string" where
  "SharedLibrary_dirname lib = os_path_dirname (path lib)"

section \<open>Dictionaries\<close>

text \<open>
  A Python \<open>dict\<close> keeps its keys in insertion order; it is modelled as an association
  list with one pair for each key. \<open>dict_set k v d\<close> is \<open>d[k] = v\<close>.
\<close>

fun dict_set :: "'k \<Rightarrow> 'v \<Rightarrow> ('k \<times> 'v) list \<Rightarrow> ('k \<times> 'v) list" where
  "dict_set k v [] = [(k, v)]"
| "dict_set k v (p # d) = (if fst p = k then (k, v) # d else p # dict_set k v d)"

text \<open>
  \<open>dd_get d k\<close> is \<open>d[k]\<close> on a \<open>defaultdict(list)\<close>: reading a missing key stores
  an empty list under it. The dictionary after the read is returned with the value.
\<close>

definition dd_get :: "('k \<times> 'v list) list \<Rightarrow> 'k \<Rightarrow> 'v list \<times> ('k \<times> 'v list) list" where
  "dd_get d k = (case map_of d k of Some v \<Rightarrow> (v, d) | None \<Rightarrow> ([], d @ [(k, [])]))"

text \<open>\<open>d[k].append(x)\<close> on a \<open>defaultdict(list)\<close>.\<close>

definition dd_append :: "('k \<times> 'v list) list \<Rightarrow> 'k \<Rightarrow> 'v \<Rightarrow> ('k \<times> 'v list) list" where
  "dd_append d k x = (case dd_get d k of (v, d') \<Rightarrow> dict_set k (v @ [x]) d')"

text \<open>
  \<open>set(xs)\<close> is kept as a list without duplicates, and \<open>list(a - b)\<close> filters it. The order
  in which Python lists a set of two or more strings is not fixed by the language; every
  entry of the library table below has one element, where the order is unique.
\<close>

definition py_set :: "'a list \<Rightarrow> 'a list" where
  "py_set xs = remdups xs"

definition py_set_difference :: "'a list \<Rightarrow> 'a list \<Rightarrow> 'a list" where
  "py_set_difference a b = filter (\<lambda>x. x \<notin> set b) a"

text \<open>\<open>Counter(xs)\<close> and \<open>most_common()\<close>: a stable sort on the count, largest first.\<close>

definition counter_add :: "'a \<Rightarrow> ('a \<times> nat) list \<Rightarrow> ('a \<times> nat) list" where
  "counter_add x c = dict_set x (case map_of c x of None \<Rightarrow> 1 | Some n \<Rightarrow> n + 1) c"

definition Counter :: "'a list \<Rightarrow> ('a \<times> nat) list" where
  "Counter xs = fold counter_add xs []"

definition most_common :: "('a \<times> nat) list \<Rightarrow> ('a \<times> nat) list" where
  "most_common c = sort_key (\<lambda>p. - int (snd p)) c"

section \<open>Static tables\<close>

text \<open>\<open>SYSTEM_COMPONENTS["LIBRARIES"]\<close>.\<close>

definition LIBRARIES :: "(string \<times> string list) list" where
  "LIBRARIES =
     [(''OPENGL'', [''libGL.so.1'']),
      (''VULKAN'', [''libvulkan.so.1'']),
      (''WINE'', [''libsqlite3.so.0'']),
      (''RADEON'', [''libvulkan_radeon.so'']),
      (''GAMEMODE'', [''libgamemodeauto.so'']),
      (''GNUTLS'', [''libgnutls.so.30''])]"

definition multiarch_lib_folders :: "(string \<times> string) list" where
  "multiarch_lib_folders =
     [(''/lib'', ''/lib64''),
      (''/lib32'', ''/lib64''),
      (''/usr/lib'', ''/usr/lib64''),
      (''/usr/lib32'', ''/usr/lib64''),
      (''/lib/i386-linux-gnu'', ''/lib/x86_64-linux-gnu''),
      (''/usr/lib/i386-linux-gnu'', ''/usr/lib/x86_64-linux-gnu''),
      (''/usr/lib'', ''/opt/32/lib'')]"

definition required_components :: "string list" where
  "required_components = [''OPENGL'', ''VULKAN'', ''GNUTLS'']"

definition optional_components :: "string list" where
  "optional_components = [''WINE'', ''GAMEMODE'']"

section \<open>The host and the LinuxSystem object\<close>

text \<open>
  The object of \<open>lutris.util.graphics.glxinfo\<close> read by \<open>is_feature_supported\<close>; each
  attribute of the chain \<open>glxinfo.GLX_MESA_query_renderer.version\<close> may be absent.
\<close>

record QueryRenderer =
  version :: "string option"

record GlxInfo =
  GLX_MESA_query_renderer :: "QueryRenderer option"

text \<open>
  What the class reads from outside: \<open>platform.machine()\<close>, the path of \<open>ldconfig\<close>
  found at start-up, the output of \<open>ldconfig -p\<close>, \<open>drivers.is_amd()\<close>, the result of
  \<open>get_glxinfo()\<close>, \<open>os.path.exists\<close> and \<open>os.path.realpath\<close>.
\<close>

record Host =
  machine :: string
  ldconfig :: "string option"
  ldconfig_output :: string
  is_amd :: bool
  host_glxinfo :: "GlxInfo option"
  path_exists :: "string \<Rightarrow> bool"
  realpath :: "string \<Rightarrow> string"

type_synonym inventory = "(string \<times> SharedLibrary list) list"

type_synonym libraries_cache = "(string \<times> (string \<times> string list) list) list"

record LinuxSystem =
  arch :: "string option"
  shared_libraries :: inventory
  cache_LIBRARIES :: libraries_cache
  glxinfo :: "GlxInfo option"

text \<open>\<open>get_arch\<close> on the machine string; a function that ends without \<open>return\<close> gives \<open>None\<close>.\<close>

definition get_arch :: "string \<Rightarrow> string option \<times> log_record list" where
  "get_arch m =
     (if m = ''x86_64'' then (Some ''x86_64'', [])
      else if m \<in> set [''i386'', ''i686''] then (Some ''i386'', [])
      else if sublist ''armv7'' m then (Some ''armv7'', [])
      else (None, [Warning (''Unsupported architecture '' @ m)]))"

definition runtime_architectures :: "LinuxSystem \<Rightarrow> string list" where
  "runtime_architectures sys =
     (if arch sys = Some ''x86_64'' then [''i386'', ''x86_64''] else [''i386''])"

definition get_requirements :: "Host \<Rightarrow> bool \<Rightarrow> string list" where
  "get_requirements host include_optional =
     (if include_optional
      then required_components @ optional_components @ (if is_amd host then [''RADEON''] else [])
      else required_components)"

definition requirements :: "Host \<Rightarrow> string list" where
  "requirements host = get_requirements host True"

definition get_ldconfig_libs :: "Host \<Rightarrow> string list \<times> log_record list" where
  "get_ldconfig_libs host =
     (if ldconfig host = None \<or> ldconfig host = Some []
      then ([], [Error ''Could not detect ldconfig on this system''])
      else (map (py_strip_chars (\<lambda>c. c = tab))
              (filter (prefix [tab]) (py_split newline (ldconfig_output host))), []))"

text \<open>
  The loop of \<open>get_shared_libraries\<close>. Only \<open>ValueError\<close> is caught; the dictionary and
  the log are accumulated.
\<close>

fun get_shared_libraries_loop ::
  "string list \<Rightarrow> string list \<Rightarrow> inventory \<times> log_record list
     \<Rightarrow> py_error + inventory \<times> log_record list" where
  "get_shared_libraries_loop archs [] st = Inr st"
| "get_shared_libraries_loop archs (lib_line # rest) (libs, lg) =
     (case new_from_ldconfig lib_line of
        Inl e \<Rightarrow>
          (if e = ValueError
           then get_shared_libraries_loop archs rest
                  (libs, lg @ [Error (''Invalid ldconfig line: '' @ lib_line)])
           else Inl e)
      | Inr lib \<Rightarrow>
          (if SharedLibrary_arch lib \<notin> set archs
           then get_shared_libraries_loop archs rest (libs, lg)
           else get_shared_libraries_loop archs rest (dd_append libs (name lib) lib, lg)))"

definition get_shared_libraries ::
  "LinuxSystem \<Rightarrow> string list \<Rightarrow> py_error + inventory \<times> log_record list" where
  "get_shared_libraries sys ldconfig_libs =
     get_shared_libraries_loop (runtime_architectures sys) ldconfig_libs ([], [])"

text \<open>
  The three nested loops of \<open>populate_libraries\<close>, innermost first. The cache
  \<open>_cache["LIBRARIES"]\<close> is a plain dictionary from architecture to a
  \<open>defaultdict(list)\<close>; \<open>shared_libraries\<close> is a \<open>defaultdict(list)\<close> too, so looking a
  library up stores an empty list for a name that is not there.
\<close>

fun populate_shared ::
  "string \<Rightarrow> string \<Rightarrow> SharedLibrary list \<Rightarrow> libraries_cache \<Rightarrow> py_error + libraries_cache" where
  "populate_shared req lib [] c = Inr c"
| "populate_shared req lib (shared_lib # rest) c =
     (case map_of c (SharedLibrary_arch shared_lib) of
        None \<Rightarrow> Inl KeyError
      | Some by_req \<Rightarrow>
          populate_shared req lib rest
            (dict_set (SharedLibrary_arch shared_lib) (dd_append by_req req lib) c))"

fun populate_libs ::
  "string \<Rightarrow> string list \<Rightarrow> inventory \<times> libraries_cache
     \<Rightarrow> py_error + inventory \<times> libraries_cache" where
  "populate_libs req [] st = Inr st"
| "populate_libs req (lib # rest) (libs, c) =
     (case dd_get libs lib of
        (found, libs') \<Rightarrow>
          (case populate_shared req lib found c of
             Inl e \<Rightarrow> Inl e
           | Inr c' \<Rightarrow> populate_libs req rest (libs', c')))"

fun populate_reqs ::
  "string list \<Rightarrow> inventory \<times> libraries_cache \<Rightarrow> py_error + inventory \<times> libraries_cache" where
  "populate_reqs [] st = Inr st"
| "populate_reqs (req # rest) st =
     (case map_of LIBRARIES req of
        None \<Rightarrow> Inl KeyError
      | Some libs \<Rightarrow>
          (case populate_libs req libs st of
             Inl e \<Rightarrow> Inl e
           | Inr st' \<Rightarrow> populate_reqs rest st'))"

definition populate_libraries :: "Host \<Rightarrow> LinuxSystem \<Rightarrow> py_error + LinuxSystem" where
  "populate_libraries host sys =
     (let c0 = fold (\<lambda>a c. dict_set a [] c) (runtime_architectures sys) []
      in case populate_reqs (requirements host) (shared_libraries sys, c0) of
           Inl e \<Rightarrow> Inl e
         | Inr (libs, c) \<Rightarrow> Inr (sys\<lparr>shared_libraries := libs, cache_LIBRARIES := c\<rparr>))"

text \<open>
  The list comprehension of \<open>get_missing_requirement_libs\<close>, one architecture at a
  time. Reading \<open>_cache["LIBRARIES"][arch][req]\<close> goes through the \<open>defaultdict\<close>, so the
  cache after the call is returned with the report.
\<close>

fun missing_loop ::
  "string list \<Rightarrow> string \<Rightarrow> string list \<Rightarrow> libraries_cache
     \<Rightarrow> py_error + string list list \<times> libraries_cache" where
  "missing_loop required_libs req [] c = Inr ([], c)"
| "missing_loop required_libs req (a # rest) c =
     (case map_of c a of
        None \<Rightarrow> Inl KeyError
      | Some by_req \<Rightarrow>
          (case dd_get by_req req of
             (present, by_req') \<Rightarrow>
               (case missing_loop required_libs req rest (dict_set a by_req' c) of
                  Inl e \<Rightarrow> Inl e
                | Inr (ms, c') \<Rightarrow>
                    Inr (py_set_difference required_libs (py_set present) # ms, c'))))"

definition get_missing_requirement_libs ::
  "LinuxSystem \<Rightarrow> string \<Rightarrow> py_error + string list list \<times> LinuxSystem" where
  "get_missing_requirement_libs sys req =
     (case map_of LIBRARIES req of
        None \<Rightarrow> Inl KeyError
      | Some libs \<Rightarrow>
          (case missing_loop (py_set libs) req (runtime_architectures sys) (cache_LIBRARIES sys) of
             Inl e \<Rightarrow> Inl e
           | Inr (ms, c) \<Rightarrow> Inr (ms, sys\<lparr>cache_LIBRARIES := c\<rparr>)))"

text \<open>
  \<open>is_feature_supported\<close>. The branch for \<open>ACO\<close> reads the module global
  \<open>LINUX_SYSTEM\<close> and not \<open>self\<close>, so the function takes both: the global first, the
  receiver second. In the attribute chain \<open>glxinfo.GLX_MESA_query_renderer.version\<close> an
  absent attribute raises \<open>AttributeError\<close>, which the branch catches. The other branch
  works on \<open>self\<close>.
\<close>

definition is_feature_supported ::
  "LinuxSystem \<Rightarrow> LinuxSystem \<Rightarrow> string \<Rightarrow> py_error + bool \<times> LinuxSystem" where
  "is_feature_supported LINUX_SYSTEM self feature =
     (if feature = ''ACO''
      then (case glxinfo LINUX_SYSTEM of
              None \<Rightarrow> Inr (False, self)
            | Some g \<Rightarrow>
                (case GLX_MESA_query_renderer g of
                   None \<Rightarrow> Inr (False, self)
                 | Some r \<Rightarrow>
                     (case version r of
                        None \<Rightarrow> Inr (False, self)
                      | Some mesa_version \<Rightarrow> Inr (py_str_le ''19.3'' mesa_version, self))))
      else (case get_missing_requirement_libs self feature of
              Inl e \<Rightarrow> Inl e
            | Inr (ms, self') \<Rightarrow>
                (case ms of
                   [] \<Rightarrow> Inl IndexError
                 | m # _ \<Rightarrow> Inr (m = [], self'))))"

definition get_lib_folders :: "LinuxSystem \<Rightarrow> string list" where
  "get_lib_folders sys =
     map fst (most_common
       (Counter (map SharedLibrary_dirname (concat (map snd (shared_libraries sys))))))"

text \<open>
  The second loop of \<open>iter_lib_folders\<close>. \<open>multiarch_yield\<close> is the part of one round
  after \<open>lib_paths\<close> is fixed: what it yields, given the set \<open>exported_lib_folders\<close>;
  \<open>multiarch_step\<close> is the whole round for one pair of the table.
\<close>

definition multiarch_yield :: "Host \<Rightarrow> string set \<Rightarrow> string list \<Rightarrow> string list" where
  "multiarch_yield host exported_lib_folders lib_paths =
     (if list_all (path_exists host) lib_paths
      then (if lib_paths ! 0 \<notin> exported_lib_folders then [lib_paths ! 0] else [])
           @ (if length lib_paths \<noteq> 1
              then (if lib_paths ! 1 \<notin> exported_lib_folders then [lib_paths ! 1] else [])
              else [])
      else [])"

definition multiarch_step :: "Host \<Rightarrow> LinuxSystem \<Rightarrow> string set \<Rightarrow> string \<times> string \<Rightarrow> string list" where
  "multiarch_step host sys exported_lib_folders pair =
     (if arch sys \<noteq> Some ''x86_64''
      then multiarch_yield host exported_lib_folders [fst pair]
      else if realpath host (fst pair) = realpath host (snd pair)
      then []
      else multiarch_yield host exported_lib_folders [fst pair, snd pair])"

text \<open>
  The generator as the list of what it yields. The first loop yields the folders of the
  inventory and adds each to \<open>exported_lib_folders\<close>; the second loop reads the set and
  never adds to it.
\<close>

definition iter_lib_folders :: "Host \<Rightarrow> LinuxSystem \<Rightarrow> string list" where
  "iter_lib_folders host sys =
     (let folders = get_lib_folders sys;
          exported_lib_folders = set folders
      in folders @ concat (map (multiarch_step host sys exported_lib_folders) multiarch_lib_folders))"

text \<open>
  The part of \<open>__init__\<close> that builds the architecture, the inventory, the library cache
  and the graphics information, with the log it writes.
\<close>

definition LinuxSystem_init :: "Host \<Rightarrow> py_error + LinuxSystem \<times> log_record list" where
  "LinuxSystem_init host =
     (case get_arch (machine host) of
        (a, lg1) \<Rightarrow>
          (let sys0 = \<lparr>arch = a, shared_libraries = [], cache_LIBRARIES = [], glxinfo = None\<rparr>
           in case get_ldconfig_libs host of
                (ldconfig_libs, lg2) \<Rightarrow>
                  (case get_shared_libraries sys0 ldconfig_libs of
                     Inl e \<Rightarrow> Inl e
                   | Inr (libs, lg3) \<Rightarrow>
                       (case populate_libraries host (sys0\<lparr>shared_libraries := libs\<rparr>) of
                          Inl e \<Rightarrow> Inl e
                        | Inr sys1 \<Rightarrow>
                            Inr (sys1\<lparr>glxinfo := host_glxinfo host\<rparr>, lg1 @ lg2 @ lg3)))))"

section \<open>Example hosts and systems\<close>

text \<open>A system whose graphics information carries the given Mesa version, if any.\<close>

definition mesa_system :: "string option \<Rightarrow> LinuxSystem" where
  "mesa_system v =
     \<lparr>arch = Some ''x86_64'', shared_libraries = [], cache_LIBRARIES = [],
      glxinfo = Some \<lparr>GLX_MESA_query_renderer = Some \<lparr>version = v\<rparr>\<rparr>\<rparr>"

text \<open>
  An x86_64 host where \<open>ldconfig -p\<close> prints a header and three lines, the last
  without flags; the directories given exist and no path is a symbolic link.
\<close>

definition example_listing :: string where
  "example_listing =
     ''3 libs found in cache'' @ [newline]
     @ [tab] @ ''libGL.so.1 (libc6,x86-64) => /usr/lib/x86_64-linux-gnu/libGL.so.1'' @ [newline]
     @ [tab] @ ''libvulkan.so.1 (libc6,x86-64) => /usr/lib/x86_64-linux-gnu/libvulkan.so.1'' @ [newline]
     @ [tab] @ ''libbroken.so.1 => /usr/lib/libbroken.so.1'' @ [newline]"

definition example_host :: "string list \<Rightarrow> Host" where
  "example_host dirs =
     \<lparr>machine = ''x86_64'', ldconfig = Some ''/sbin/ldconfig'', ldconfig_output = example_listing,
      is_amd = False, host_glxinfo = None,
      path_exists = (\<lambda>p. p \<in> set dirs),
      realpath = (\<lambda>p. p)\<rparr>"

definition libGL_record :: SharedLibrary where
  "libGL_record = \<lparr>name = ''libGL.so.1'', flags = [''libc6'', ''x86-64''],
      path = ''/usr/lib/x86_64-linux-gnu/libGL.so.1''\<rparr>"

definition libvulkan_record :: SharedLibrary where
  "libvulkan_record = \<lparr>name = ''libvulkan.so.1'', flags = [''libc6'', ''x86-64''],
      path = ''/usr/lib/x86_64-linux-gnu/libvulkan.so.1''\<rparr>"

text \<open>The system that \<open>__init__\<close> builds on this host.\<close>

definition example_system :: LinuxSystem where
  "example_system =
     \<lparr>arch = Some ''x86_64'',
      shared_libraries =
        [(''libGL.so.1'', [libGL_record]), (''libvulkan.so.1'', [libvulkan_record]),
         (''libgnutls.so.30'', []), (''libsqlite3.so.0'', []), (''libgamemodeauto.so'', [])],
      cache_LIBRARIES =
        [(''i386'', []),
         (''x86_64'', [(''OPENGL'', [''libGL.so.1'']), (''VULKAN'', [''libvulkan.so.1''])])],
      glxinfo = None\<rparr>"

section \<open>Reading the inventory and the cache\<close>

text \<open>
  The notions the properties are stated with. \<open>dict_get_list d k\<close> is \<open>d.get(k, [])\<close>, a
  read that stores nothing; \<open>cache_lookup c a r\<close> is the list the cache holds for the
  architecture \<open>a\<close> and the requirement \<open>r\<close>, empty when there is none.
\<close>

definition dict_get_list :: "('k \<times> 'v list) list \<Rightarrow> 'k \<Rightarrow> 'v list" where
  "dict_get_list d k = (case map_of d k of None \<Rightarrow> [] | Some v \<Rightarrow> v)"

definition cache_lookup :: "libraries_cache \<Rightarrow> string \<Rightarrow> string \<Rightarrow> string list" where
  "cache_lookup c a r = (case map_of c a of None \<Rightarrow> [] | Some d \<Rightarrow> dict_get_list d r)"

text \<open>
  A library is present for an architecture when the inventory has, under its name, a
  record whose architecture is that one.
\<close>

definition lib_present :: "LinuxSystem \<Rightarrow> string \<Rightarrow> string \<Rightarrow> bool" where
  "lib_present sys a l =
     list_ex (\<lambda>lib. SharedLibrary_arch lib = a) (dict_get_list (shared_libraries sys) l)"

text \<open>The records of the lines that parse, in the order of the lines.\<close>

definition parsed_records :: "string list \<Rightarrow> SharedLibrary list" where
  "parsed_records ldconfig_libs =
     concat (map (\<lambda>l. case new_from_ldconfig l of Inr lib \<Rightarrow> [lib] | Inl e \<Rightarrow> []) ldconfig_libs)"

text \<open>The lines that do not parse, in the order of the lines.\<close>

definition malformed_lines :: "string list \<Rightarrow> string list" where
  "malformed_lines ldconfig_libs = filter (\<lambda>l. new_from_ldconfig l = Inl ValueError) ldconfig_libs"

section \<open>The flags text as tokens\<close>

text \<open>
  The notions the property of the parser is stated with. \<open>py_join sep xs\<close> is
  \<open>sep.join(xs)\<close>. A flags text is a list of tokens joined by commas, each token with
  whitespace before and after it: a triple \<open>(l, t, r)\<close> stands for the token \<open>t\<close> between
  the whitespace \<open>l\<close> and \<open>r\<close>. A token holds no comma and neither starts nor ends with
  whitespace.
\<close>

fun py_join :: "string \<Rightarrow> string list \<Rightarrow> string" where
  "py_join sep [] = []"
| "py_join sep [x] = x"
| "py_join sep (x # y # ys) = x @ sep @ py_join sep (y # ys)"

definition stripped :: "string \<Rightarrow> bool" where
  "stripped t = (t = [] \<or> (\<not> py_isspace (hd t) \<and> \<not> py_isspace (last t)))"

definition padded :: "string \<times> string \<times> string \<Rightarrow> string" where
  "padded x = (case x of (l, t, r) \<Rightarrow> l @ t @ r)"

definition token :: "string \<times> string \<times> string \<Rightarrow> string" where
  "token x = (case x of (l, t, r) \<Rightarrow> t)"

definition well_padded :: "string \<times> string \<times> string \<Rightarrow> bool" where
  "well_padded x =
     (case x of (l, t, r) \<Rightarrow>
        list_all py_isspace l \<and> list_all py_isspace r \<and> stripped t \<and> CHR '','' \<notin> set t)"

section \<open>Architecture of a library record and of the host\<close>

text \<open>
  C9: the architecture of a library record is a total function of its flags: the tag
  \<open>x86-64\<close> among the flags gives \<open>x86_64\<close>; otherwise the tag \<open>x32\<close> gives \<open>x32\<close>;
  every other list of flags gives \<open>i386\<close>. The flags text \<open>libc6,x86-64\<close> is split into
  \<open>libc6\<close> and \<open>x86-64\<close> and gives \<open>x86_64\<close>.
\<close>

theorem SharedLibrary_arch_total:
  "SharedLibrary_arch lib =
     (if ''x86-64'' \<in> set (flags lib) then ''x86_64''
      else if ''x32'' \<in> set (flags lib) then ''x32''
      else ''i386'')
   \<and> SharedLibrary_arch (SharedLibrary_init n ''libc6,x86-64'' p) = ''x86_64''
   \<and> flags (SharedLibrary_init n ''libc6,x86-64'' p) = [''libc6'', ''x86-64'']"
  by (simp add: SharedLibrary_arch_def detected_arch_def default_arch_def py_replace_def
      SharedLibrary_init_def py_strip_def py_strip_chars_def py_isspace_def)

theorem SharedLibrary_arch_total_witness:
  "SharedLibrary_arch
     \<lparr>name = ''libz.so.1'', flags = [''libc6'', ''x32''], path = ''/libx32/libz.so.1''\<rparr> = ''x32''"
  using SharedLibrary_arch_total
    [of "\<lparr>name = ''libz.so.1'', flags = [''libc6'', ''x32''], path = ''/libx32/libz.so.1''\<rparr>"]
  by simp

text \<open>
  The claim C4 as written fails: on the machine string \<open>aarch64\<close>, which is none of the
  supported ones, \<open>get_arch\<close> does not return the string \<open>unknown\<close>.
\<close>

theorem get_arch_unknown_counterexample:
  "''aarch64'' \<noteq> ''x86_64'' \<and> ''aarch64'' \<notin> set [''i386'', ''i686'']
   \<and> \<not> sublist ''armv7'' ''aarch64''
   \<and> fst (get_arch ''aarch64'') \<noteq> Some ''unknown''"
  by (simp add: get_arch_def sublist_code)

text \<open>
  C4, amended: for every machine string that is not \<open>x86_64\<close>, not \<open>i386\<close> or \<open>i686\<close>
  and does not contain \<open>armv7\<close>, \<open>get_arch\<close> raises nothing: it returns \<open>None\<close> (no
  architecture, and not the string \<open>unknown\<close>) and logs one warning that names the
  machine string.
\<close>

theorem get_arch_unsupported:
  assumes "m \<noteq> ''x86_64''" and "m \<notin> set [''i386'', ''i686'']" and "\<not> sublist ''armv7'' m"
  shows "get_arch m = (None, [Warning (''Unsupported architecture '' @ m)])"
  using assms by (simp add: get_arch_def)

theorem get_arch_unsupported_witness:
  "get_arch ''aarch64'' = (None, [Warning ''Unsupported architecture aarch64''])"
  using get_arch_unsupported [of "''aarch64''"] by (simp add: sublist_code)

section \<open>Feature queries\<close>

lemma py_str_le_lexord:
  "py_str_le a b \<longleftrightarrow> a = b \<or> (a, b) \<in> lexord {(x, y). (of_char x :: nat) < of_char y}"
proof (induction a b rule: py_str_le.induct)
  case (1 b)
  show ?case by (cases b) auto
qed auto

lemma LIBRARIES_keys:
  "map_of LIBRARIES req = None \<longleftrightarrow>
     req \<notin> set [''OPENGL'', ''VULKAN'', ''WINE'', ''RADEON'', ''GAMEMODE'', ''GNUTLS'']"
  by (simp add: LIBRARIES_def)

text \<open>
  C8: \<open>is_feature_supported("ACO")\<close> never raises and leaves the receiver as it is. It
  returns true exactly when the graphics information of \<open>LINUX_SYSTEM\<close> has a query
  renderer with a Mesa version, and that version is, in the lexicographic order of
  strings on code points, equal to or greater than \<open>19.3\<close>. When the graphics
  information, the query renderer or the version is absent, it returns false.
\<close>

theorem is_feature_supported_ACO:
  "is_feature_supported LINUX_SYSTEM self ''ACO'' =
     Inr ((\<exists>g r v. glxinfo LINUX_SYSTEM = Some g
              \<and> GLX_MESA_query_renderer g = Some r
              \<and> version r = Some v
              \<and> (v = ''19.3'' \<or> (''19.3'', v) \<in> lexord {(x, y). (of_char x :: nat) < of_char y})),
          self)
   \<and> (glxinfo LINUX_SYSTEM = None
        \<or> (\<exists>g. glxinfo LINUX_SYSTEM = Some g
              \<and> (GLX_MESA_query_renderer g = None
                   \<or> (\<exists>r. GLX_MESA_query_renderer g = Some r \<and> version r = None)))
      \<longrightarrow> is_feature_supported LINUX_SYSTEM self ''ACO'' = Inr (False, self))"
  by (auto simp: is_feature_supported_def py_str_le_lexord split: option.splits)

theorem is_feature_supported_ACO_witness:
  "is_feature_supported (mesa_system (Some ''2.0'')) example_system ''ACO'' =
     Inr (True, example_system)
   \<and> is_feature_supported (mesa_system (Some ''19.3'')) example_system ''ACO'' =
     Inr (True, example_system)
   \<and> is_feature_supported (mesa_system (Some ''1.0'')) example_system ''ACO'' =
     Inr (False, example_system)
   \<and> is_feature_supported (mesa_system None) example_system ''ACO'' =
     Inr (False, example_system)
   \<and> is_feature_supported example_system (mesa_system (Some ''20.0'')) ''ACO'' =
     Inr (False, mesa_system (Some ''20.0''))"
  using is_feature_supported_ACO [of "mesa_system (Some ''2.0'')" example_system]
    is_feature_supported_ACO [of "mesa_system (Some ''19.3'')" example_system]
    is_feature_supported_ACO [of "mesa_system (Some ''1.0'')" example_system]
    is_feature_supported_ACO [of "mesa_system None" example_system]
    is_feature_supported_ACO [of example_system "mesa_system (Some ''20.0'')"]
  by (simp add: mesa_system_def example_system_def)

text \<open>
  C10: for a requirement name that is not one of the six keys of the library table,
  \<open>get_missing_requirement_libs\<close> raises \<open>KeyError\<close>, and so does \<open>is_feature_supported\<close>
  unless the name is \<open>ACO\<close>; neither returns a report.
\<close>

theorem unknown_requirement_KeyError:
  assumes "req \<notin> set [''OPENGL'', ''VULKAN'', ''WINE'', ''RADEON'', ''GAMEMODE'', ''GNUTLS'']"
  shows "get_missing_requirement_libs sys req = Inl KeyError
         \<and> (req \<noteq> ''ACO'' \<longrightarrow> is_feature_supported LINUX_SYSTEM sys req = Inl KeyError)"
proof -
  from assms have "map_of LIBRARIES req = None"
    using LIBRARIES_keys [of req] by blast
  then have "get_missing_requirement_libs sys req = Inl KeyError"
    by (simp add: get_missing_requirement_libs_def)
  then show ?thesis
    by (simp add: is_feature_supported_def)
qed

theorem unknown_requirement_KeyError_witness:
  "get_missing_requirement_libs (mesa_system None) ''DXVK'' = Inl KeyError
   \<and> is_feature_supported (mesa_system None) (mesa_system None) ''DXVK'' = Inl KeyError"
  using unknown_requirement_KeyError [of "''DXVK''" "mesa_system None" "mesa_system None"] by simp

section \<open>The parser of cache lines\<close>

lemma dot_star_sound:
  "dot_star k s = Some (g, r) \<Longrightarrow> \<exists>t. s = g @ t \<and> k t = Some r \<and> newline \<notin> set g"
proof (induction s arbitrary: g)
  case Nil
  then show ?case by auto
next
  case (Cons c cs)
  show ?case
  proof (cases "c \<noteq> newline \<and> dot_star k cs \<noteq> None")
    case True
    then obtain g' r' where d: "dot_star k cs = Some (g', r')" by auto
    with True Cons.prems have g: "g = c # g'" and r: "r = r'" by auto
    from d r have "dot_star k cs = Some (g', r)" by simp
    from Cons.IH [OF this] g True show ?thesis by auto
  next
    case False
    with Cons.prems have "g = []" "k (c # cs) = Some r"
      by (auto split: if_splits option.splits)
    then show ?thesis by simp
  qed
qed

lemma lit_sound: "lit p k s = Some r \<Longrightarrow> \<exists>t. s = p @ t \<and> k t = Some r"
  by (auto simp: lit_def prefix_def split: if_splits)

lemma lit_append [simp]: "lit p k (p @ t) = k t"
  by (simp add: lit_def)

lemma dot_star_append:
  "newline \<notin> set n \<Longrightarrow> dot_star k rest = Some (g, r) \<Longrightarrow> dot_star k (n @ rest) = Some (n @ g, r)"
  by (induction n) auto

lemma dot_star_total:
  "newline \<notin> set g \<Longrightarrow> k t = Some r \<Longrightarrow> \<exists>g' r'. dot_star k (g @ t) = Some (g', r')"
proof (induction g)
  case Nil
  then show ?case by (cases t) (auto split: option.splits)
next
  case (Cons c g)
  then show ?case by (auto split: option.splits)
qed

lemma dot_star_None:
  "(\<And>t. suffix t s \<Longrightarrow> k t = None) \<Longrightarrow> dot_star k s = None"
proof (induction s)
  case Nil
  then show ?case by simp
next
  case (Cons c cs)
  have "dot_star k cs = None"
    by (rule Cons.IH) (simp add: Cons.prems suffix_Cons)
  moreover have "k (c # cs) = None"
    by (rule Cons.prems) simp
  ultimately show ?case by (cases "c = newline") simp_all
qed

lemma dot_star_here:
  "k (c # cs) = Some r \<Longrightarrow> dot_star k cs = None \<Longrightarrow> dot_star k (c # cs) = Some ([], r)"
  by (cases "c = newline") simp_all

lemma dot_star_lit_None: "\<not> sublist p s \<Longrightarrow> dot_star (lit p k) s = None"
proof (rule dot_star_None)
  fix t assume "\<not> sublist p s" "suffix t s"
  then have "\<not> prefix p t"
    by (auto simp: sublist_def suffix_def prefix_def)
  then show "lit p k t = None" by (simp add: lit_def)
qed

lemma dot_star_dollar: "newline \<notin> set p \<Longrightarrow> dot_star dollar p = Some (p, ())"
  using dot_star_append [of p dollar "[]" "[]" "()"] by (simp add: dollar_def)

lemma paren_suffix:
  "\<not> sublist '' ('' f \<Longrightarrow> suffix ('' ('' @ t) (f @ '') => '' @ p) \<Longrightarrow> suffix t p"
proof (induction f)
  case Nil
  then show ?case
    by (auto simp: suffix_Cons dest: suffix_ConsD)
next
  case (Cons c cs)
  from Cons.prems(1) have ns: "\<not> sublist '' ('' cs" and np: "\<not> prefix '' ('' (c # cs)"
    by (simp_all add: sublist_Cons_right)
  from Cons.prems(2) consider "'' ('' @ t = c # cs @ '') => '' @ p" | "suffix ('' ('' @ t) (cs @ '') => '' @ p)"
    by (auto simp: suffix_Cons)
  then show ?case
  proof cases
    case 1
    with np show ?thesis by (cases cs) auto
  next
    case 2
    with Cons.IH ns show ?thesis by blast
  qed
qed

lemma tail_match:
  assumes "newline \<notin> set p"
  shows "lit '') => '' (dot_star dollar) ('') => '' @ p) = Some (p, ())"
  using dot_star_dollar [OF assms] lit_append [of "'') => ''" "dot_star dollar" p] by simp

lemma flags_match:
  assumes "newline \<notin> set f" and "newline \<notin> set p" and "\<not> sublist '') => '' p"
  shows "dot_star (lit '') => '' (dot_star dollar)) (f @ '') => '' @ p) = Some (f, p, ())"
proof -
  have "\<not> sublist '') => '' ('' => '' @ p)"
    using assms(3) by (simp add: sublist_Cons_right)
  then have "dot_star (lit '') => '' (dot_star dollar)) ('' => '' @ p) = None"
    by (rule dot_star_lit_None)
  then have "dot_star (lit '') => '' (dot_star dollar)) ('') => '' @ p) = Some ([], p, ())"
    using tail_match [OF assms(2)] dot_star_here [of "lit '') => '' (dot_star dollar)" "CHR '')''" "'' => '' @ p" "(p, ())"]
    by simp
  from dot_star_append [OF assms(1) this] show ?thesis by simp
qed

lemma re_match_ldconfig_unique:
  assumes nl: "newline \<notin> set (n @ f @ p)"
    and f: "\<not> sublist '' ('' f" and p: "\<not> sublist '') => '' p"
  shows "re_match_ldconfig (n @ '' ('' @ f @ '') => '' @ p) = Some (n, f, p)"
proof -
  let ?k2 = "lit '') => '' (dot_star dollar)"
  let ?k1 = "lit '' ('' (dot_star ?k2)"
  from nl have nn: "newline \<notin> set n" and nf: "newline \<notin> set f" and np: "newline \<notin> set p"
    by simp_all
  have fm: "dot_star ?k2 (f @ '') => '' @ p) = Some (f, p, ())"
    by (rule flags_match [OF nf np p])
  have here: "?k1 ('' ('' @ f @ '') => '' @ p) = Some (f, p, ())"
    using fm lit_append [of "'' (''" "dot_star ?k2" "f @ '') => '' @ p"] by simp
  have "dot_star ?k1 (''('' @ f @ '') => '' @ p) = None"
  proof (rule dot_star_None)
    fix t assume st: "suffix t (''('' @ f @ '') => '' @ p)"
    show "?k1 t = None"
    proof (cases "prefix '' ('' t")
      case False
      then show ?thesis by (simp add: lit_def)
    next
      case True
      then obtain t' where t: "t = '' ('' @ t'" by (auto simp: prefix_def)
      with st have "suffix ('' ('' @ t') (f @ '') => '' @ p)"
        by (auto simp: suffix_Cons)
      from paren_suffix [OF f this] have "suffix t' p" .
      have "\<not> sublist '') => '' t'"
      proof
        assume "sublist '') => '' t'"
        then obtain a b where "t' = a @ '') => '' @ b" unfolding sublist_def by blast
        moreover from \<open>suffix t' p\<close> obtain z where "p = z @ t'" unfolding suffix_def by blast
        ultimately have "p = (z @ a) @ '') => '' @ b" by simp
        then have "sublist '') => '' p" unfolding sublist_def by blast
        with p show False by contradiction
      qed
      then have "dot_star ?k2 t' = None" by (rule dot_star_lit_None)
      with t show ?thesis
        using lit_append [of "'' (''" "dot_star ?k2" t'] by simp
    qed
  qed
  with here have "dot_star ?k1 ('' ('' @ f @ '') => '' @ p) = Some ([], f, p, ())"
    using dot_star_here [of ?k1 "CHR '' ''" "''('' @ f @ '') => '' @ p" "(f, p, ())"] by simp
  from dot_star_append [OF nn this] show ?thesis
    by (simp add: re_match_ldconfig_def)
qed

lemma re_match_ldconfig_sound:
  assumes "re_match_ldconfig line = Some (g1, g2, g3)"
  shows "(line = g1 @ '' ('' @ g2 @ '') => '' @ g3 \<or> line = g1 @ '' ('' @ g2 @ '') => '' @ g3 @ [newline])"
proof -
  let ?k2 = "lit '') => '' (dot_star dollar)"
  let ?k1 = "lit '' ('' (dot_star ?k2)"
  from assms have d1: "dot_star ?k1 line = Some (g1, g2, g3, ())"
    by (auto simp: re_match_ldconfig_def split: option.splits)
  from dot_star_sound [OF d1] obtain t1 where t1: "line = g1 @ t1" "?k1 t1 = Some (g2, g3, ())"
    by blast
  from lit_sound [OF t1(2)] obtain t2 where t2: "t1 = '' ('' @ t2" "dot_star ?k2 t2 = Some (g2, g3, ())"
    by blast
  from dot_star_sound [OF t2(2)] obtain t3 where t3: "t2 = g2 @ t3" "?k2 t3 = Some (g3, ())"
    by blast
  from lit_sound [OF t3(2)] obtain t4 where t4: "t3 = '') => '' @ t4" "dot_star dollar t4 = Some (g3, ())"
    by blast
  from dot_star_sound [OF t4(2)] obtain t5 where t5: "t4 = g3 @ t5" "dollar t5 = Some ()"
    by blast
  from t5(2) have "t5 = [] \<or> t5 = [newline]"
    by (simp add: dollar_def split: if_splits)
  with t1 t2 t3 t4 t5 show ?thesis by auto
qed

lemma re_match_ldconfig_total:
  assumes nl: "newline \<notin> set (n @ f @ p)"
  shows "\<exists>g. re_match_ldconfig (n @ '' ('' @ f @ '') => '' @ p) = Some g"
proof -
  let ?k2 = "lit '') => '' (dot_star dollar)"
  let ?k1 = "lit '' ('' (dot_star ?k2)"
  from nl have nn: "newline \<notin> set n" and nf: "newline \<notin> set f" and np: "newline \<notin> set p"
    by simp_all
  from dot_star_total [where k = ?k2 and t = "'') => '' @ p", OF nf tail_match [OF np]]
  obtain g2 r2 where "dot_star ?k2 (f @ '') => '' @ p) = Some (g2, r2)" by blast
  then have "?k1 ('' ('' @ f @ '') => '' @ p) = Some (g2, r2)"
    using lit_append [of "'' (''" "dot_star ?k2" "f @ '') => '' @ p"] by simp
  from dot_star_total [where k = ?k1 and t = "'' ('' @ f @ '') => '' @ p", OF nn this]
  obtain g1 r1 where "dot_star ?k1 (n @ '' ('' @ f @ '') => '' @ p) = Some (g1, r1)" by blast
  then show ?thesis
    by (cases r1) (auto simp: re_match_ldconfig_def)
qed

lemma re_match_ldconfig_needs:
  assumes "\<not> sublist ''=>'' line \<or> CHR ''('' \<notin> set line \<or> CHR '')'' \<notin> set line"
  shows "re_match_ldconfig line = None"
proof (rule ccontr)
  assume "re_match_ldconfig line \<noteq> None"
  then obtain g1 g2 g3 where "re_match_ldconfig line = Some (g1, g2, g3)"
    by (cases "re_match_ldconfig line") auto
  from re_match_ldconfig_sound [OF this]
  obtain e where l: "line = g1 @ '' ('' @ g2 @ '') => '' @ g3 @ e" by auto
  then have "line = (g1 @ '' ('' @ g2 @ '') '') @ ''=>'' @ ('' '' @ g3 @ e)" by simp
  then have "sublist ''=>'' line" unfolding sublist_def by blast
  moreover from l have "CHR ''('' \<in> set line" "CHR '')'' \<in> set line" by simp_all
  ultimately show False using assms by blast
qed

lemma py_split_nonempty: "py_split sep s \<noteq> []"
  by (induction s) (auto split: list.splits)

lemma py_split_no_sep: "sep \<notin> set x \<Longrightarrow> py_split sep x = [x]"
  by (induction x) auto

lemma py_split_append_sep:
  "sep \<notin> set x \<Longrightarrow> py_split sep (x @ sep # rest) = x # py_split sep rest"
  by (induction x) auto

lemma py_split_join:
  "xs \<noteq> [] \<Longrightarrow> \<forall>x \<in> set xs. sep \<notin> set x \<Longrightarrow> py_split sep (py_join [sep] xs) = xs"
proof (induction "[sep]" xs rule: py_join.induct)
  case 1
  then show ?case by simp
next
  case (2 x)
  then show ?case by (simp add: py_split_no_sep)
next
  case (3 x y ys)
  then show ?case by (simp add: py_split_append_sep)
qed

lemma dropWhile_all: "list_all P xs \<Longrightarrow> dropWhile P (xs @ ys) = dropWhile P ys"
  by (induction xs) auto

lemma py_strip_padded:
  assumes "list_all py_isspace l" and "list_all py_isspace r" and "stripped t"
  shows "py_strip (l @ t @ r) = t"
proof (cases "t = []")
  case True
  have d: "dropWhile py_isspace (l @ t @ r) = []"
    using assms(1,2) True by (auto simp: dropWhile_eq_Nil_conv list_all_iff)
  have "py_strip (l @ t @ r) = []"
    unfolding py_strip_def py_strip_chars_def d by simp
  with True show ?thesis by simp
next
  case False
  with assms(3) have h: "\<not> py_isspace (hd t)" and e: "\<not> py_isspace (last t)"
    by (simp_all add: stripped_def)
  from False h have "dropWhile py_isspace (t @ r) = t @ r"
    by (cases t) auto
  with assms(1) have d1: "dropWhile py_isspace (l @ t @ r) = t @ r"
    by (simp add: dropWhile_all)
  from False e have "dropWhile py_isspace (rev t) = rev t"
    by (cases "rev t") (auto simp: last_rev [symmetric] hd_rev)
  with assms(2) have "dropWhile py_isspace (rev r @ rev t) = rev t"
    by (simp add: dropWhile_all list_all_iff)
  with d1 show ?thesis by (simp add: py_strip_def py_strip_chars_def)
qed

lemma comma_not_space: "\<not> py_isspace CHR '',''"
  by (simp add: py_isspace_def)

lemma tokens_of_padded:
  assumes "toks \<noteq> []" and "\<forall>x \<in> set toks. well_padded x"
  shows "map py_strip (py_split CHR '','' (py_join '','' (map padded toks))) = map token toks"
proof -
  have nc: "\<forall>x \<in> set (map padded toks). CHR '','' \<notin> set x"
  proof
    fix x assume "x \<in> set (map padded toks)"
    then obtain l t r where m: "(l, t, r) \<in> set toks" and x: "x = l @ t @ r"
      by (auto simp: padded_def)
    with assms(2) have "list_all py_isspace l" "list_all py_isspace r" "CHR '','' \<notin> set t"
      by (auto simp: well_padded_def)
    with comma_not_space x show "CHR '','' \<notin> set x"
      by (auto simp: list_all_iff)
  qed
  from assms(1) have "map padded toks \<noteq> []" by simp
  from py_split_join [OF this nc]
  have "py_split CHR '','' (py_join '','' (map padded toks)) = map padded toks" .
  moreover have "map py_strip (map padded toks) = map token toks"
    using assms(2) by (auto simp: padded_def token_def well_padded_def py_strip_padded)
  ultimately show ?thesis by simp
qed

lemma py_join_Cons_Cons: "py_join sep ((c # w) # ws) = c # py_join sep (w # ws)"
  by (cases ws) simp_all

lemma py_join_split: "py_join [sep] (py_split sep s) = s"
proof (induction s)
  case Nil
  then show ?case by simp
next
  case (Cons c cs)
  obtain w ws where w: "py_split sep cs = w # ws"
    using py_split_nonempty [of sep cs] by (cases "py_split sep cs") auto
  with Cons show ?case
    by (auto simp: py_join_Cons_Cons)
qed

lemma py_split_pieces: "x \<in> set (py_split sep s) \<Longrightarrow> sep \<notin> set x"
proof (induction s arbitrary: x)
  case Nil
  then show ?case by simp
next
  case (Cons c cs)
  obtain w ws where w: "py_split sep cs = w # ws"
    using py_split_nonempty [of sep cs] by (cases "py_split sep cs") auto
  with Cons show ?case
    by (auto split: if_splits)
qed

lemma padding_exists:
  "\<exists>l t r. x = l @ t @ r \<and> list_all py_isspace l \<and> list_all py_isspace r \<and> stripped t"
proof -
  define l where "l = takeWhile py_isspace x"
  define m where "m = dropWhile py_isspace x"
  define r where "r = rev (takeWhile py_isspace (rev m))"
  define t where "t = rev (dropWhile py_isspace (rev m))"
  have x: "x = l @ m" by (simp add: l_def m_def)
  have "rev m = rev r @ rev t" by (simp add: r_def t_def)
  then have m: "m = t @ r" by (metis rev_append rev_rev_ident)
  have wl: "list_all py_isspace l"
    by (simp add: l_def list_all_iff) (metis set_takeWhileD)
  have wr: "list_all py_isspace r"
    by (simp add: r_def list_all_iff) (metis set_takeWhileD)
  have "stripped t"
  proof (cases "t = []")
    case True
    then show ?thesis by (simp add: stripped_def)
  next
    case False
    with m have "m \<noteq> []" by simp
    then have "\<not> py_isspace (hd m)" unfolding m_def by (rule hd_dropWhile)
    with m False have h: "\<not> py_isspace (hd t)" by (cases t) auto
    from False have "dropWhile py_isspace (rev m) \<noteq> []" by (simp add: t_def)
    then have "\<not> py_isspace (hd (dropWhile py_isspace (rev m)))" by (rule hd_dropWhile)
    then have "\<not> py_isspace (last t)"
      using False by (simp add: t_def last_rev)
    with h show ?thesis by (simp add: stripped_def)
  qed
  with x m wl wr show ?thesis by blast
qed

lemma flags_text_padded:
  "\<exists>toks. toks \<noteq> [] \<and> (\<forall>x \<in> set toks. well_padded x) \<and> fl = py_join '','' (map padded toks)"
proof -
  have "\<exists>toks. map padded toks = xs \<and> (\<forall>x \<in> set toks. well_padded x)"
    if "\<forall>x \<in> set xs. CHR '','' \<notin> set x" for xs
    using that
  proof (induction xs)
    case Nil
    then show ?case by simp
  next
    case (Cons x xs)
    then obtain toks where t: "map padded toks = xs" "\<forall>x \<in> set toks. well_padded x" by auto
    from padding_exists [of x] obtain l u r
      where p: "x = l @ u @ r" "list_all py_isspace l" "list_all py_isspace r" "stripped u"
      by blast
    with Cons.prems have "well_padded (l, u, r)" "padded (l, u, r) = x"
      by (simp_all add: well_padded_def padded_def)
    with t have "map padded ((l, u, r) # toks) = x # xs \<and> (\<forall>y \<in> set ((l, u, r) # toks). well_padded y)"
      by simp
    then show ?case by (rule exI)
  qed
  from this [of "py_split CHR '','' fl"] py_split_pieces
  obtain toks where t: "map padded toks = py_split CHR '','' fl" "\<forall>x \<in> set toks. well_padded x"
    by blast
  with py_split_nonempty [of "CHR '',''" fl] have "toks \<noteq> []" by auto
  moreover from t(1) have "fl = py_join '','' (map padded toks)"
    using py_join_split [of "CHR '',''" fl] by simp
  ultimately show ?thesis using t(2) by blast
qed

text \<open>
  The claim C5 as written fails: a line built from the name \<open>libfoo.so.1\<close>, the flags
  \<open>libc6,x86-64\<close> and the path \<open>/opt/my (x) => y/libfoo.so.1\<close> is parsed into another
  name, other flags and another path, since each group of the pattern is greedy. So is
  a line whose flags text holds \<open> (\<close>. A newline that ends the line is left out of the
  path.
\<close>

theorem new_from_ldconfig_greedy_counterexample:
  "new_from_ldconfig
     (''libfoo.so.1'' @ '' ('' @ ''libc6,x86-64'' @ '') => '' @ ''/opt/my (x) => y/libfoo.so.1'') =
     Inr \<lparr>name = ''libfoo.so.1 (libc6,x86-64) => /opt/my'', flags = [''x''],
          path = ''y/libfoo.so.1''\<rparr>
   \<and> new_from_ldconfig
     (''libfoo.so.1'' @ '' ('' @ ''libc6,x86-64'' @ '') => '' @ ''/opt/my (x) => y/libfoo.so.1'') \<noteq>
     Inr \<lparr>name = ''libfoo.so.1'', flags = [''libc6'', ''x86-64''],
          path = ''/opt/my (x) => y/libfoo.so.1''\<rparr>
   \<and> new_from_ldconfig (''libfoo.so.1'' @ '' ('' @ ''libc6, OS (ABI'' @ '') => '' @ ''/lib/libfoo.so.1'') =
     Inr \<lparr>name = ''libfoo.so.1 (libc6, OS'', flags = [''ABI''], path = ''/lib/libfoo.so.1''\<rparr>
   \<and> new_from_ldconfig (''libfoo.so.1'' @ '' ('' @ ''libc6'' @ '') => '' @ (''/lib/libfoo.so.1'' @ [newline])) =
     Inr \<lparr>name = ''libfoo.so.1'', flags = [''libc6''], path = ''/lib/libfoo.so.1''\<rparr>"
proof -
  have "new_from_ldconfig
     (''libfoo.so.1'' @ '' ('' @ ''libc6,x86-64'' @ '') => '' @ ''/opt/my (x) => y/libfoo.so.1'') =
     Inr \<lparr>name = ''libfoo.so.1 (libc6,x86-64) => /opt/my'', flags = [''x''],
          path = ''y/libfoo.so.1''\<rparr>"
    by code_simp
  moreover have "new_from_ldconfig
      (''libfoo.so.1'' @ '' ('' @ ''libc6, OS (ABI'' @ '') => '' @ ''/lib/libfoo.so.1'') =
     Inr \<lparr>name = ''libfoo.so.1 (libc6, OS'', flags = [''ABI''], path = ''/lib/libfoo.so.1''\<rparr>"
    by code_simp
  moreover have "new_from_ldconfig
      (''libfoo.so.1'' @ '' ('' @ ''libc6'' @ '') => '' @ (''/lib/libfoo.so.1'' @ [newline])) =
     Inr \<lparr>name = ''libfoo.so.1'', flags = [''libc6''], path = ''/lib/libfoo.so.1''\<rparr>"
    by code_simp
  ultimately show ?thesis by simp
qed

text \<open>
  C5, amended: every flags text is a list of tokens joined by commas, each with
  whitespace around it. For a cache line \<open>name (flags) => path\<close> without a newline, whose
  flags text holds no \<open> (\<close> and whose path holds no \<open>) => \<close>, the record has the name
  and the path of the line, and its flags are the tokens. A line without \<open>=>\<close>, without
  an opening or without a closing parenthesis raises \<open>ValueError\<close>.
\<close>

theorem new_from_ldconfig_line:
  "(\<exists>toks. toks \<noteq> [] \<and> (\<forall>x \<in> set toks. well_padded x)
      \<and> fl = py_join '','' (map padded toks))
   \<and> (newline \<notin> set (n @ fl @ p) \<and> \<not> sublist '' ('' fl \<and> \<not> sublist '') => '' p
      \<and> fl = py_join '','' (map padded toks) \<and> toks \<noteq> [] \<and> (\<forall>x \<in> set toks. well_padded x)
      \<longrightarrow> new_from_ldconfig (n @ '' ('' @ fl @ '') => '' @ p) =
            Inr \<lparr>name = n, flags = map token toks, path = p\<rparr>)
   \<and> (\<not> sublist ''=>'' line \<or> CHR ''('' \<notin> set line \<or> CHR '')'' \<notin> set line \<longrightarrow>
        new_from_ldconfig line = Inl ValueError)"
proof (intro conjI impI)
  show "\<exists>toks. toks \<noteq> [] \<and> (\<forall>x \<in> set toks. well_padded x)
      \<and> fl = py_join '','' (map padded toks)"
    by (rule flags_text_padded)
next
  assume h: "newline \<notin> set (n @ fl @ p) \<and> \<not> sublist '' ('' fl \<and> \<not> sublist '') => '' p
      \<and> fl = py_join '','' (map padded toks) \<and> toks \<noteq> [] \<and> (\<forall>x \<in> set toks. well_padded x)"
  then have nl: "newline \<notin> set (n @ fl @ p)"
    and f: "\<not> sublist '' ('' fl" and p: "\<not> sublist '') => '' p"
    and fl: "fl = py_join '','' (map padded toks)"
    and ne: "toks \<noteq> []" and wp: "\<forall>x \<in> set toks. well_padded x"
    by blast+
  have "re_match_ldconfig (n @ '' ('' @ fl @ '') => '' @ p) = Some (n, fl, p)"
    by (rule re_match_ldconfig_unique [OF nl f p])
  moreover have "map py_strip (py_split CHR '','' fl) = map token toks"
    unfolding fl by (rule tokens_of_padded [OF ne wp])
  ultimately show "new_from_ldconfig (n @ '' ('' @ fl @ '') => '' @ p) =
      Inr \<lparr>name = n, flags = map token toks, path = p\<rparr>"
    by (simp add: new_from_ldconfig_def SharedLibrary_init_def)
next
  assume "\<not> sublist ''=>'' line \<or> CHR ''('' \<notin> set line \<or> CHR '')'' \<notin> set line"
  from re_match_ldconfig_needs [OF this] show "new_from_ldconfig line = Inl ValueError"
    by (simp add: new_from_ldconfig_def)
qed

theorem new_from_ldconfig_line_witness:
  "new_from_ldconfig ''name (f1, f2) => /path'' =
     Inr \<lparr>name = ''name'', flags = [''f1'', ''f2''], path = ''/path''\<rparr>
   \<and> new_from_ldconfig ''libGL.so.1 => /usr/lib/libGL.so.1'' = Inl ValueError
   \<and> new_from_ldconfig ''libGL.so.1 (libc6) /usr/lib/libGL.so.1'' = Inl ValueError"
  using new_from_ldconfig_line [where n = "''name''" and fl = "''f1, f2''" and p = "''/path''"
      and toks = "[([], ''f1'', []), ('' '', ''f2'', [])]"
      and line = "''libGL.so.1 => /usr/lib/libGL.so.1''"]
    new_from_ldconfig_line [where n = "''name''" and fl = "''f1, f2''" and p = "''/path''"
      and toks = "[([], ''f1'', []), ('' '', ''f2'', [])]"
      and line = "''libGL.so.1 (libc6) /usr/lib/libGL.so.1''"]
  by (simp add: sublist_code newline_def padded_def token_def well_padded_def stripped_def
      py_isspace_def)

section \<open>Library folders\<close>

lemma example_init:
  "LinuxSystem_init (example_host dirs) =
     Inr (example_system,
          [Error ''Invalid ldconfig line: libbroken.so.1 => /usr/lib/libbroken.so.1''])"
  by code_simp

lemma example_folders: "get_lib_folders example_system = [''/usr/lib/x86_64-linux-gnu'']"
  by code_simp

text \<open>
  C2 fails on the code: on the example host with \<open>/lib\<close>, \<open>/lib32\<close> and \<open>/lib64\<close>
  present as three directories, \<open>iter_lib_folders\<close> yields \<open>/lib64\<close> twice, once for
  the pair with \<open>/lib\<close> and once for the pair with \<open>/lib32\<close>.
\<close>

theorem iter_lib_folders_duplicate:
  "LinuxSystem_init (example_host [''/lib'', ''/lib32'', ''/lib64'']) =
     Inr (example_system,
          [Error ''Invalid ldconfig line: libbroken.so.1 => /usr/lib/libbroken.so.1''])
   \<and> iter_lib_folders (example_host [''/lib'', ''/lib32'', ''/lib64'']) example_system =
       [''/usr/lib/x86_64-linux-gnu'', ''/lib'', ''/lib64'', ''/lib32'', ''/lib64'']
   \<and> \<not> distinct (iter_lib_folders (example_host [''/lib'', ''/lib32'', ''/lib64'']) example_system)"
proof -
  have "iter_lib_folders (example_host [''/lib'', ''/lib32'', ''/lib64'']) example_system =
       [''/usr/lib/x86_64-linux-gnu'', ''/lib'', ''/lib64'', ''/lib32'', ''/lib64'']"
    by code_simp
  then show ?thesis by (simp add: example_init)
qed

lemma example_arch: "arch example_system = Some ''x86_64''"
  by (simp add: example_system_def)

lemma example_host_fs:
  "path_exists (example_host dirs) p = (p \<in> set dirs)" "realpath (example_host dirs) p = p"
  by (simp_all add: example_host_def)

text \<open>
  The claim C3 as written fails: with \<open>/lib32\<close> present and \<open>/lib64\<close> absent, the
  pair of the two has one existing side, which is not a folder of the inventory, and
  \<open>iter_lib_folders\<close> does not yield it.
\<close>

theorem multiarch_one_side_counterexample:
  "arch example_system = Some ''x86_64''
   \<and> (''/lib32'', ''/lib64'') \<in> set multiarch_lib_folders
   \<and> realpath (example_host [''/lib32'']) ''/lib32'' \<noteq> realpath (example_host [''/lib32'']) ''/lib64''
   \<and> path_exists (example_host [''/lib32'']) ''/lib32''
   \<and> \<not> path_exists (example_host [''/lib32'']) ''/lib64''
   \<and> ''/lib32'' \<notin> set (get_lib_folders example_system)
   \<and> ''/lib32'' \<notin> set (iter_lib_folders (example_host [''/lib32'']) example_system)"
proof -
  have "iter_lib_folders (example_host [''/lib32'']) example_system = [''/usr/lib/x86_64-linux-gnu'']"
    by code_simp
  then show ?thesis
    by (simp add: example_folders example_arch example_host_fs multiarch_lib_folders_def)
qed

text \<open>
  C3, amended: on an x86_64 host, for a pair of the table whose two paths do not resolve
  to the same real directory: when both sides exist on disk, both sides are in the
  output of \<open>iter_lib_folders\<close>; when a side does not exist, the round of the pair
  yields nothing, whatever has been yielded before.
\<close>

theorem multiarch_pair_both_sides:
  assumes "arch sys = Some ''x86_64''"
    and "(a, b) \<in> set multiarch_lib_folders"
    and "realpath host a \<noteq> realpath host b"
  shows "(path_exists host a \<and> path_exists host b \<longrightarrow>
            a \<in> set (iter_lib_folders host sys) \<and> b \<in> set (iter_lib_folders host sys))
         \<and> (\<not> (path_exists host a \<and> path_exists host b) \<longrightarrow>
              multiarch_step host sys exported_lib_folders (a, b) = [])"
proof -
  have step: "multiarch_step host sys exported (a, b) =
           (if path_exists host a \<and> path_exists host b
            then filter (\<lambda>p. p \<notin> exported) [a, b]
            else [])" for exported
    using assms(1,3) by (simp add: multiarch_step_def multiarch_yield_def)
  have sub: "set (multiarch_step host sys (set (get_lib_folders sys)) (a, b))
               \<subseteq> set (iter_lib_folders host sys)"
    using assms(2) by (auto simp: iter_lib_folders_def Let_def)
  have "a \<in> set (iter_lib_folders host sys) \<and> b \<in> set (iter_lib_folders host sys)"
    if ex: "path_exists host a \<and> path_exists host b"
  proof -
    have "x \<in> set (iter_lib_folders host sys)" if "x = a \<or> x = b" for x
    proof (cases "x \<in> set (get_lib_folders sys)")
      case True
      then show ?thesis by (simp add: iter_lib_folders_def Let_def)
    next
      case False
      with that ex step [of "set (get_lib_folders sys)"]
      have "x \<in> set (multiarch_step host sys (set (get_lib_folders sys)) (a, b))"
        by auto
      with sub show ?thesis by blast
    qed
    then show ?thesis by simp
  qed
  moreover have "multiarch_step host sys exported_lib_folders (a, b) = []"
    if "\<not> (path_exists host a \<and> path_exists host b)"
    using that step [of exported_lib_folders] by simp
  ultimately show ?thesis by blast
qed

theorem multiarch_pair_both_sides_witness:
  "''/lib'' \<in> set (iter_lib_folders (example_host [''/lib'', ''/lib64'']) example_system)
   \<and> ''/lib64'' \<in> set (iter_lib_folders (example_host [''/lib'', ''/lib64'']) example_system)
   \<and> multiarch_step (example_host [''/lib32'']) example_system
      (set (get_lib_folders example_system)) (''/lib32'', ''/lib64'') = []"
  using multiarch_pair_both_sides [of example_system "''/lib''" "''/lib64''" "example_host [''/lib'', ''/lib64'']"]
    multiarch_pair_both_sides [of example_system "''/lib32''" "''/lib64''" "example_host [''/lib32'']"
      "set (get_lib_folders example_system)"]
  by (simp add: example_folders example_arch example_host_fs multiarch_lib_folders_def)

section \<open>The inventory and the library cache\<close>

lemma map_of_dict_set: "map_of (dict_set k v d) = (map_of d)(k \<mapsto> v)"
  by (induction d) (auto simp: fun_eq_iff)

lemma dict_set_same: "map_of d k = Some v \<Longrightarrow> dict_set k v d = d"
  by (induction d) (auto split: if_splits)

lemma dd_get_fst: "fst (dd_get d k) = dict_get_list d k"
  by (simp add: dd_get_def dict_get_list_def split: option.splits)

lemma dd_get_snd_map_of:
  "map_of (snd (dd_get d k)) = (case map_of d k of None \<Rightarrow> (map_of d)(k \<mapsto> []) | Some v \<Rightarrow> map_of d)"
  by (auto simp: dd_get_def fun_eq_iff map_add_def split: option.splits)

lemma dd_get_snd_lookup: "dict_get_list (snd (dd_get d k)) k' = dict_get_list d k'"
  by (simp add: dict_get_list_def dd_get_snd_map_of split: option.splits)

lemma dd_append_lookup:
  "dict_get_list (dd_append d k x) k' =
     (if k' = k then dict_get_list d k @ [x] else dict_get_list d k')"
  by (auto simp: dd_append_def dd_get_def dict_get_list_def map_of_dict_set split: option.splits prod.splits)

lemma cache_lookup_dict_set:
  "cache_lookup (dict_set a d c) a' r = (if a' = a then dict_get_list d r else cache_lookup c a' r)"
  by (simp add: cache_lookup_def map_of_dict_set)

lemma dom_dict_set: "dom (map_of (dict_set k v d)) = insert k (dom (map_of d))"
  by (simp add: map_of_dict_set)

lemma populate_shared_ok:
  assumes "\<forall>sl \<in> set sls. SharedLibrary_arch sl \<in> dom (map_of c)"
  shows "\<exists>c'. populate_shared req lib sls c = Inr c'
           \<and> dom (map_of c') = dom (map_of c)
           \<and> (\<forall>a r. cache_lookup c' a r =
                cache_lookup c a r
                @ (if r = req then map (\<lambda>_. lib) (filter (\<lambda>sl. SharedLibrary_arch sl = a) sls) else []))"
  using assms
proof (induction sls arbitrary: c)
  case Nil
  then show ?case by simp
next
  case (Cons sl sls)
  let ?a = "SharedLibrary_arch sl"
  from Cons.prems obtain by_req where br: "map_of c ?a = Some by_req" by auto
  let ?c1 = "dict_set ?a (dd_append by_req req lib) c"
  have d1: "dom (map_of ?c1) = dom (map_of c)"
    using br by (auto simp: dom_dict_set)
  with Cons.prems have "\<forall>x \<in> set sls. SharedLibrary_arch x \<in> dom (map_of ?c1)" by simp
  from Cons.IH [OF this] obtain c' where c': "populate_shared req lib sls ?c1 = Inr c'"
    "dom (map_of c') = dom (map_of ?c1)"
    "\<forall>a r. cache_lookup c' a r = cache_lookup ?c1 a r
        @ (if r = req then map (\<lambda>_. lib) (filter (\<lambda>sl. SharedLibrary_arch sl = a) sls) else [])"
    by blast
  have l1: "cache_lookup ?c1 a r = cache_lookup c a r @ (if r = req \<and> a = ?a then [lib] else [])" for a r
    using br by (auto simp: cache_lookup_def map_of_dict_set dd_append_lookup)
  have "populate_shared req lib (sl # sls) c = Inr c'"
    using br c'(1) by simp
  moreover have "dom (map_of c') = dom (map_of c)" using c'(2) d1 by simp
  moreover have "cache_lookup c' a r = cache_lookup c a r
      @ (if r = req then map (\<lambda>_. lib) (filter (\<lambda>sl. SharedLibrary_arch sl = a) (sl # sls)) else [])" for a r
    using c'(3) l1 by auto
  ultimately show ?case by blast
qed

lemma populate_libs_ok:
  assumes "\<forall>k. \<forall>sl \<in> set (dict_get_list iv k). SharedLibrary_arch sl \<in> dom (map_of c)"
  shows "\<exists>iv' c'. populate_libs req libs (iv, c) = Inr (iv', c')
           \<and> (\<forall>k. dict_get_list iv' k = dict_get_list iv k)
           \<and> dom (map_of c') = dom (map_of c)
           \<and> (\<forall>a r. cache_lookup c' a r =
                cache_lookup c a r
                @ (if r = req
                   then concat (map (\<lambda>lib. map (\<lambda>_. lib)
                          (filter (\<lambda>sl. SharedLibrary_arch sl = a) (dict_get_list iv lib))) libs)
                   else []))"
  using assms
proof (induction libs arbitrary: iv c)
  case Nil
  then show ?case by simp
next
  case (Cons lib libs)
  obtain found iv1 where g: "dd_get iv lib = (found, iv1)" by (cases "dd_get iv lib")
  then have found: "found = dict_get_list iv lib"
    using dd_get_fst [of iv lib] by simp
  from g have iv1: "dict_get_list iv1 k = dict_get_list iv k" for k
    using dd_get_snd_lookup [of iv lib k] by simp
  from Cons.prems found have "\<forall>sl \<in> set found. SharedLibrary_arch sl \<in> dom (map_of c)" by simp
  from populate_shared_ok [OF this, of req lib] obtain c1
    where c1: "populate_shared req lib found c = Inr c1" "dom (map_of c1) = dom (map_of c)"
      "\<forall>a r. cache_lookup c1 a r = cache_lookup c a r
         @ (if r = req then map (\<lambda>_. lib) (filter (\<lambda>sl. SharedLibrary_arch sl = a) found) else [])"
    by blast
  from Cons.prems iv1 c1(2)
  have "\<forall>k. \<forall>sl \<in> set (dict_get_list iv1 k). SharedLibrary_arch sl \<in> dom (map_of c1)" by simp
  from Cons.IH [OF this] obtain iv' c'
    where r: "populate_libs req libs (iv1, c1) = Inr (iv', c')"
      "\<forall>k. dict_get_list iv' k = dict_get_list iv1 k"
      "dom (map_of c') = dom (map_of c1)"
      "\<forall>a r. cache_lookup c' a r = cache_lookup c1 a r
         @ (if r = req
            then concat (map (\<lambda>lib. map (\<lambda>_. lib)
                   (filter (\<lambda>sl. SharedLibrary_arch sl = a) (dict_get_list iv1 lib))) libs)
            else [])"
    by blast
  have "populate_libs req (lib # libs) (iv, c) = Inr (iv', c')"
    using g c1(1) r(1) by simp
  moreover have "\<forall>k. dict_get_list iv' k = dict_get_list iv k" using r(2) iv1 by simp
  moreover have "dom (map_of c') = dom (map_of c)" using r(3) c1(2) by simp
  moreover have "\<forall>a r. cache_lookup c' a r = cache_lookup c a r
         @ (if r = req
            then concat (map (\<lambda>lib. map (\<lambda>_. lib)
                   (filter (\<lambda>sl. SharedLibrary_arch sl = a) (dict_get_list iv lib))) (lib # libs))
            else [])"
    using r(4) c1(3) iv1 found by simp
  ultimately show ?case by blast
qed

lemma populate_reqs_ok:
  assumes "\<forall>k. \<forall>sl \<in> set (dict_get_list iv k). SharedLibrary_arch sl \<in> dom (map_of c)"
    and "\<forall>r \<in> set reqs. map_of LIBRARIES r \<noteq> None"
  shows "\<exists>iv' c'. populate_reqs reqs (iv, c) = Inr (iv', c')
           \<and> (\<forall>k. dict_get_list iv' k = dict_get_list iv k)
           \<and> dom (map_of c') = dom (map_of c)
           \<and> (\<forall>a r. set (cache_lookup c' a r) =
                set (cache_lookup c a r)
                \<union> (if r \<in> set reqs
                   then {lib \<in> set (dict_get_list LIBRARIES r).
                          \<exists>sl \<in> set (dict_get_list iv lib). SharedLibrary_arch sl = a}
                   else {}))"
  using assms
proof (induction reqs arbitrary: iv c)
  case Nil
  then show ?case by simp
next
  case (Cons req reqs)
  from Cons.prems(2) obtain libs where libs: "map_of LIBRARIES req = Some libs" by auto
  then have dl: "dict_get_list LIBRARIES req = libs" by (simp add: dict_get_list_def)
  from populate_libs_ok [OF Cons.prems(1), of req libs] obtain iv1 c1
    where s1: "populate_libs req libs (iv, c) = Inr (iv1, c1)"
      "\<forall>k. dict_get_list iv1 k = dict_get_list iv k"
      "dom (map_of c1) = dom (map_of c)"
      "\<forall>a r. cache_lookup c1 a r = cache_lookup c a r
         @ (if r = req
            then concat (map (\<lambda>lib. map (\<lambda>_. lib)
                   (filter (\<lambda>sl. SharedLibrary_arch sl = a) (dict_get_list iv lib))) libs)
            else [])"
    by blast
  have set1: "set (cache_lookup c1 a r) = set (cache_lookup c a r)
       \<union> (if r = req then {lib \<in> set libs. \<exists>sl \<in> set (dict_get_list iv lib). SharedLibrary_arch sl = a} else {})"
    for a r
    using s1(4) by (auto simp: filter_empty_conv)
  from Cons.prems(1) s1(2,3)
  have "\<forall>k. \<forall>sl \<in> set (dict_get_list iv1 k). SharedLibrary_arch sl \<in> dom (map_of c1)" by simp
  moreover from Cons.prems(2) have "\<forall>r \<in> set reqs. map_of LIBRARIES r \<noteq> None" by simp
  ultimately obtain iv' c'
    where r: "populate_reqs reqs (iv1, c1) = Inr (iv', c')"
      "\<forall>k. dict_get_list iv' k = dict_get_list iv1 k"
      "dom (map_of c') = dom (map_of c1)"
      "\<forall>a r. set (cache_lookup c' a r) = set (cache_lookup c1 a r)
         \<union> (if r \<in> set reqs
            then {lib \<in> set (dict_get_list LIBRARIES r).
                   \<exists>sl \<in> set (dict_get_list iv1 lib). SharedLibrary_arch sl = a}
            else {})"
    using Cons.IH [of iv1 c1] by blast
  have "populate_reqs (req # reqs) (iv, c) = Inr (iv', c')"
    using libs s1(1) r(1) by simp
  moreover have "\<forall>k. dict_get_list iv' k = dict_get_list iv k" using r(2) s1(2) by simp
  moreover have "dom (map_of c') = dom (map_of c)" using r(3) s1(3) by simp
  moreover have "\<forall>a r. set (cache_lookup c' a r) = set (cache_lookup c a r)
         \<union> (if r \<in> set (req # reqs)
            then {lib \<in> set (dict_get_list LIBRARIES r).
                   \<exists>sl \<in> set (dict_get_list iv lib). SharedLibrary_arch sl = a}
            else {})"
    using r(4) set1 s1(2) dl by auto
  ultimately show ?case by blast
qed

lemma missing_loop_ok:
  assumes "set archs \<subseteq> dom (map_of c)"
  shows "\<exists>c'. missing_loop required req archs c =
             Inr (map (\<lambda>a. py_set_difference required (py_set (cache_lookup c a req))) archs, c')
           \<and> dom (map_of c') = dom (map_of c)
           \<and> (\<forall>a r. cache_lookup c' a r = cache_lookup c a r)"
  using assms
proof (induction archs arbitrary: c)
  case Nil
  then show ?case by simp
next
  case (Cons a archs)
  from Cons.prems obtain by_req where br: "map_of c a = Some by_req" by auto
  obtain present by_req' where g: "dd_get by_req req = (present, by_req')"
    by (cases "dd_get by_req req")
  have present: "present = cache_lookup c a req"
    using g br dd_get_fst [of by_req req] by (simp add: cache_lookup_def)
  let ?c1 = "dict_set a by_req' c"
  have l1: "cache_lookup ?c1 a' r = cache_lookup c a' r" for a' r
    using g br dd_get_snd_lookup [of by_req req r]
    by (simp add: cache_lookup_def map_of_dict_set)
  have d1: "dom (map_of ?c1) = dom (map_of c)"
    using br by (auto simp: dom_dict_set)
  with Cons.prems have "set archs \<subseteq> dom (map_of ?c1)" by simp
  from Cons.IH [OF this] obtain c'
    where r: "missing_loop required req archs ?c1 =
             Inr (map (\<lambda>a. py_set_difference required (py_set (cache_lookup ?c1 a req))) archs, c')"
      "dom (map_of c') = dom (map_of ?c1)"
      "\<forall>a r. cache_lookup c' a r = cache_lookup ?c1 a r"
    by blast
  have "missing_loop required req (a # archs) c =
      Inr (map (\<lambda>a. py_set_difference required (py_set (cache_lookup c a req))) (a # archs), c')"
    using br g r(1) present l1 by simp
  moreover have "dom (map_of c') = dom (map_of c)" using r(2) d1 by simp
  moreover have "\<forall>a r. cache_lookup c' a r = cache_lookup c a r" using r(3) l1 by simp
  ultimately show ?case by blast
qed

lemma new_from_ldconfig_error: "new_from_ldconfig l = Inl e \<Longrightarrow> e = ValueError"
  by (auto simp: new_from_ldconfig_def split: option.splits)

lemma get_shared_libraries_loop_char:
  "get_shared_libraries_loop archs ls (iv, lg) =
     Inr (fold (\<lambda>lib d. dd_append d (name lib) lib)
            (filter (\<lambda>lib. SharedLibrary_arch lib \<in> set archs) (parsed_records ls)) iv,
          lg @ map (\<lambda>l. Error (''Invalid ldconfig line: '' @ l)) (malformed_lines ls))"
proof (induction ls arbitrary: iv lg)
  case Nil
  then show ?case by (simp add: parsed_records_def malformed_lines_def)
next
  case (Cons l ls)
  show ?case
  proof (cases "new_from_ldconfig l")
    case (Inl e)
    with new_from_ldconfig_error have "new_from_ldconfig l = Inl ValueError" by blast
    then show ?thesis
      using Cons.IH by (simp add: parsed_records_def malformed_lines_def)
  next
    case (Inr lib)
    then show ?thesis
      using Cons.IH by (simp add: parsed_records_def malformed_lines_def)
  qed
qed

lemma fold_dd_append_lookup:
  "dict_get_list (fold (\<lambda>lib d. dd_append d (name lib) lib) libs iv) k =
     dict_get_list iv k @ filter (\<lambda>lib. name lib = k) libs"
  by (induction libs arbitrary: iv) (auto simp: dd_append_lookup)

lemma fold_dict_set_empty:
  "map_of (fold (\<lambda>a c. dict_set a [] c) archs c) =
     (\<lambda>k. if k \<in> set archs then Some [] else map_of c k)"
  by (induction archs arbitrary: c) (auto simp: map_of_dict_set fun_eq_iff)

lemma requirements_in_LIBRARIES: "\<forall>r \<in> set (requirements host). map_of LIBRARIES r \<noteq> None"
  by (simp add: requirements_def get_requirements_def required_components_def
      optional_components_def LIBRARIES_def)

lemma runtime_architectures_arch:
  "arch sys = arch sys' \<Longrightarrow> runtime_architectures sys = runtime_architectures sys'"
  by (simp add: runtime_architectures_def)

lemma LinuxSystem_init_ok:
  "\<exists>sys lg. LinuxSystem_init host = Inr (sys, lg)
     \<and> arch sys = fst (get_arch (machine host))
     \<and> glxinfo sys = host_glxinfo host
     \<and> (\<forall>k. dict_get_list (shared_libraries sys) k =
            filter (\<lambda>lib. name lib = k)
              (filter (\<lambda>lib. SharedLibrary_arch lib \<in> set (runtime_architectures sys))
                 (parsed_records (fst (get_ldconfig_libs host)))))
     \<and> dom (map_of (cache_LIBRARIES sys)) = set (runtime_architectures sys)
     \<and> (\<forall>a r. set (cache_lookup (cache_LIBRARIES sys) a r) =
            (if r \<in> set (requirements host)
             then {l \<in> set (dict_get_list LIBRARIES r). lib_present sys a l}
             else {}))"
proof -
  obtain a lg1 where ga: "get_arch (machine host) = (a, lg1)" by (cases "get_arch (machine host)")
  obtain ls lg2 where gl: "get_ldconfig_libs host = (ls, lg2)" by (cases "get_ldconfig_libs host")
  define sys0 where "sys0 = \<lparr>arch = a, shared_libraries = [], cache_LIBRARIES = [], glxinfo = None\<rparr>"
  define archs where "archs = runtime_architectures sys0"
  define kept where "kept = filter (\<lambda>lib. SharedLibrary_arch lib \<in> set archs) (parsed_records ls)"
  define iv where "iv = fold (\<lambda>lib d. dd_append d (name lib) lib) kept []"
  define lg3 where "lg3 = map (\<lambda>l. Error (''Invalid ldconfig line: '' @ l)) (malformed_lines ls)"
  define c0 where "c0 = fold (\<lambda>a c. dict_set a [] c) archs ([] :: libraries_cache)"
  have gs: "get_shared_libraries sys0 ls = Inr (iv, lg3)"
    using get_shared_libraries_loop_char [of archs ls "[]" "[]"]
    by (simp add: get_shared_libraries_def archs_def iv_def kept_def lg3_def)
  have ivk: "dict_get_list iv k = filter (\<lambda>lib. name lib = k) kept" for k
    using fold_dd_append_lookup [of kept "[]" k] by (simp add: iv_def dict_get_list_def)
  have c0m: "map_of c0 = (\<lambda>k. if k \<in> set archs then Some [] else None)"
    using fold_dict_set_empty [of archs "[] :: libraries_cache"] by (auto simp: c0_def fun_eq_iff)
  then have c0d: "dom (map_of c0) = set archs"
    by (auto simp: dom_def)
  have c0l: "cache_lookup c0 x r = []" for x r
    using c0m by (simp add: cache_lookup_def dict_get_list_def)
  have "\<forall>k. \<forall>sl \<in> set (dict_get_list iv k). SharedLibrary_arch sl \<in> dom (map_of c0)"
    using ivk c0d by (simp add: kept_def)
  from populate_reqs_ok [OF this requirements_in_LIBRARIES [of host]] obtain iv' c'
    where p: "populate_reqs (requirements host) (iv, c0) = Inr (iv', c')"
      "\<forall>k. dict_get_list iv' k = dict_get_list iv k"
      "dom (map_of c') = dom (map_of c0)"
      "\<forall>x r. set (cache_lookup c' x r) = set (cache_lookup c0 x r)
         \<union> (if r \<in> set (requirements host)
            then {lib \<in> set (dict_get_list LIBRARIES r).
                   \<exists>sl \<in> set (dict_get_list iv lib). SharedLibrary_arch sl = x}
            else {})"
    by blast
  define sys where "sys = \<lparr>arch = a, shared_libraries = iv', cache_LIBRARIES = c', glxinfo = host_glxinfo host\<rparr>"
  have ra: "runtime_architectures sys = archs"
    by (simp add: archs_def sys_def sys0_def runtime_architectures_def)
  have ra0: "runtime_architectures (sys0\<lparr>shared_libraries := iv\<rparr>) = archs"
    by (simp add: archs_def sys0_def runtime_architectures_def)
  have pl: "populate_libraries host (sys0\<lparr>shared_libraries := iv\<rparr>) =
      Inr (sys0\<lparr>shared_libraries := iv', cache_LIBRARIES := c'\<rparr>)"
    using p(1) ra0 by (simp add: populate_libraries_def c0_def)
  have init: "LinuxSystem_init host = Inr (sys, lg1 @ lg2 @ lg3)"
    using ga gl gs pl by (simp add: LinuxSystem_init_def sys0_def [symmetric] sys_def) (simp add: sys0_def)
  have lp: "lib_present sys x l \<longleftrightarrow> (\<exists>sl \<in> set (dict_get_list iv l). SharedLibrary_arch sl = x)" for x l
    using p(2) by (simp add: lib_present_def sys_def list_ex_iff)
  have "arch sys = fst (get_arch (machine host))" using ga by (simp add: sys_def)
  moreover have "glxinfo sys = host_glxinfo host" by (simp add: sys_def)
  moreover have "\<forall>k. dict_get_list (shared_libraries sys) k =
            filter (\<lambda>lib. name lib = k)
              (filter (\<lambda>lib. SharedLibrary_arch lib \<in> set (runtime_architectures sys))
                 (parsed_records (fst (get_ldconfig_libs host))))"
    using p(2) ivk gl ra by (simp add: sys_def kept_def)
  moreover have "dom (map_of (cache_LIBRARIES sys)) = set (runtime_architectures sys)"
    using p(3) c0d ra by (simp add: sys_def)
  moreover have "\<forall>x r. set (cache_lookup (cache_LIBRARIES sys) x r) =
            (if r \<in> set (requirements host)
             then {l \<in> set (dict_get_list LIBRARIES r). lib_present sys x l}
             else {})"
    using p(4) c0l lp by (simp add: sys_def)
  ultimately show ?thesis using init by blast
qed

lemma get_missing_requirement_libs_ok:
  assumes "set (runtime_architectures sys) \<subseteq> dom (map_of (cache_LIBRARIES sys))"
    and "map_of LIBRARIES req = Some libs"
  shows "\<exists>c'. get_missing_requirement_libs sys req =
             Inr (map (\<lambda>a. py_set_difference (py_set libs)
                              (py_set (cache_lookup (cache_LIBRARIES sys) a req)))
                    (runtime_architectures sys),
                  sys\<lparr>cache_LIBRARIES := c'\<rparr>)
           \<and> dom (map_of c') = dom (map_of (cache_LIBRARIES sys))
           \<and> (\<forall>a r. cache_lookup c' a r = cache_lookup (cache_LIBRARIES sys) a r)"
proof -
  from missing_loop_ok [OF assms(1), of "py_set libs" req] obtain c'
    where "missing_loop (py_set libs) req (runtime_architectures sys) (cache_LIBRARIES sys) =
             Inr (map (\<lambda>a. py_set_difference (py_set libs)
                              (py_set (cache_lookup (cache_LIBRARIES sys) a req)))
                    (runtime_architectures sys), c')"
      "dom (map_of c') = dom (map_of (cache_LIBRARIES sys))"
      "\<forall>a r. cache_lookup c' a r = cache_lookup (cache_LIBRARIES sys) a r"
    by blast
  then show ?thesis
    using assms(2) by (auto simp: get_missing_requirement_libs_def)
qed

section \<open>The report of missing libraries\<close>

lemma LIBRARIES_lookup:
  "map_of LIBRARIES req = Some libs \<Longrightarrow> dict_get_list LIBRARIES req = libs"
  by (simp add: dict_get_list_def)

lemma report_after_init:
  assumes init: "LinuxSystem_init host = Inr (sys, lg)"
    and req: "req \<in> set (requirements host)"
  shows "\<exists>sys' sys''.
           get_missing_requirement_libs sys req =
             Inr (map (\<lambda>a. filter (\<lambda>l. \<not> lib_present sys a l) (remdups (dict_get_list LIBRARIES req)))
                    (runtime_architectures sys), sys')
         \<and> get_missing_requirement_libs sys' req =
             Inr (map (\<lambda>a. filter (\<lambda>l. \<not> lib_present sys a l) (remdups (dict_get_list LIBRARIES req)))
                    (runtime_architectures sys), sys'')"
proof -
  from LinuxSystem_init_ok [of host] init
  have dom: "dom (map_of (cache_LIBRARIES sys)) = set (runtime_architectures sys)"
    and look: "\<forall>a r. set (cache_lookup (cache_LIBRARIES sys) a r) =
            (if r \<in> set (requirements host)
             then {l \<in> set (dict_get_list LIBRARIES r). lib_present sys a l}
             else {})"
    by auto
  from requirements_in_LIBRARIES req obtain libs where libs: "map_of LIBRARIES req = Some libs"
    by blast
  then have dl: "dict_get_list LIBRARIES req = libs" by (rule LIBRARIES_lookup)
  have rep: "py_set_difference (py_set libs) (py_set (cache_lookup (cache_LIBRARIES sys) a req)) =
      filter (\<lambda>l. \<not> lib_present sys a l) (remdups libs)" for a
    using look req dl
    by (auto simp: py_set_difference_def py_set_def intro!: filter_cong)
  from dom have d1: "set (runtime_architectures sys) \<subseteq> dom (map_of (cache_LIBRARIES sys))" by simp
  from get_missing_requirement_libs_ok [OF d1 libs] obtain c'
    where first: "get_missing_requirement_libs sys req =
             Inr (map (\<lambda>a. py_set_difference (py_set libs)
                              (py_set (cache_lookup (cache_LIBRARIES sys) a req)))
                    (runtime_architectures sys),
                  sys\<lparr>cache_LIBRARIES := c'\<rparr>)"
      and d': "dom (map_of c') = dom (map_of (cache_LIBRARIES sys))"
      and l': "\<forall>a r. cache_lookup c' a r = cache_lookup (cache_LIBRARIES sys) a r"
    by blast
  let ?sys' = "sys\<lparr>cache_LIBRARIES := c'\<rparr>"
  have ra: "runtime_architectures ?sys' = runtime_architectures sys"
    by (simp add: runtime_architectures_def)
  have d2: "set (runtime_architectures ?sys') \<subseteq> dom (map_of (cache_LIBRARIES ?sys'))"
    using d1 d' ra by simp
  from get_missing_requirement_libs_ok [OF d2 libs] obtain c''
    where second: "get_missing_requirement_libs ?sys' req =
             Inr (map (\<lambda>a. py_set_difference (py_set libs)
                              (py_set (cache_lookup (cache_LIBRARIES ?sys') a req)))
                    (runtime_architectures ?sys'),
                  ?sys'\<lparr>cache_LIBRARIES := c''\<rparr>)"
    by blast
  have "get_missing_requirement_libs sys req =
      Inr (map (\<lambda>a. filter (\<lambda>l. \<not> lib_present sys a l) (remdups (dict_get_list LIBRARIES req)))
             (runtime_architectures sys), ?sys')"
    using first rep dl by simp
  moreover have "get_missing_requirement_libs ?sys' req =
      Inr (map (\<lambda>a. filter (\<lambda>l. \<not> lib_present sys a l) (remdups (dict_get_list LIBRARIES req)))
             (runtime_architectures sys), ?sys'\<lparr>cache_LIBRARIES := c''\<rparr>)"
    using second rep dl l' ra by simp
  ultimately show ?thesis by blast
qed

text \<open>
  C7: building the system never fails, and for every requirement of the requirement set
  \<open>get_missing_requirement_libs\<close> returns, for each runtime architecture in the order of
  the list, the libraries declared for the requirement that are not present in the
  inventory for that architecture. A second call, on the system the first call leaves,
  returns the same report.
\<close>

theorem missing_libs_report:
  "\<exists>sys lg. LinuxSystem_init host = Inr (sys, lg)
     \<and> (\<forall>req \<in> set (requirements host).
          \<exists>sys' sys''.
            get_missing_requirement_libs sys req =
              Inr (map (\<lambda>a. filter (\<lambda>l. \<not> lib_present sys a l)
                               (remdups (dict_get_list LIBRARIES req)))
                     (runtime_architectures sys), sys')
          \<and> get_missing_requirement_libs sys' req =
              Inr (map (\<lambda>a. filter (\<lambda>l. \<not> lib_present sys a l)
                               (remdups (dict_get_list LIBRARIES req)))
                     (runtime_architectures sys), sys''))"
proof -
  from LinuxSystem_init_ok [of host] obtain sys lg where "LinuxSystem_init host = Inr (sys, lg)"
    by blast
  with report_after_init show ?thesis by blast
qed

lemma example_report:
  "map (\<lambda>a. filter (\<lambda>l. \<not> lib_present example_system a l)
                               (remdups (dict_get_list LIBRARIES ''VULKAN'')))
                     (runtime_architectures example_system) = [[''libvulkan.so.1''], []]"
  by code_simp

lemma example_requirements: "''VULKAN'' \<in> set (requirements (example_host dirs))"
  by (simp add: requirements_def get_requirements_def required_components_def)

theorem missing_libs_report_witness:
  "\<exists>sys' sys''.
     get_missing_requirement_libs example_system ''VULKAN'' = Inr ([[''libvulkan.so.1''], []], sys')
     \<and> get_missing_requirement_libs sys' ''VULKAN'' = Inr ([[''libvulkan.so.1''], []], sys'')"
proof -
  from missing_libs_report [of "example_host []"] obtain sys lg
    where i: "LinuxSystem_init (example_host []) = Inr (sys, lg)"
      and r: "\<forall>req \<in> set (requirements (example_host [])).
          \<exists>sys' sys''.
            get_missing_requirement_libs sys req =
              Inr (map (\<lambda>a. filter (\<lambda>l. \<not> lib_present sys a l)
                               (remdups (dict_get_list LIBRARIES req)))
                     (runtime_architectures sys), sys')
          \<and> get_missing_requirement_libs sys' req =
              Inr (map (\<lambda>a. filter (\<lambda>l. \<not> lib_present sys a l)
                               (remdups (dict_get_list LIBRARIES req)))
                     (runtime_architectures sys), sys'')"
    by blast
  from i have s: "sys = example_system" by (simp add: example_init)
  from r example_requirements [of "[]"]
  have "\<exists>sys' sys''.
            get_missing_requirement_libs sys ''VULKAN'' =
              Inr (map (\<lambda>a. filter (\<lambda>l. \<not> lib_present sys a l)
                               (remdups (dict_get_list LIBRARIES ''VULKAN'')))
                     (runtime_architectures sys), sys')
          \<and> get_missing_requirement_libs sys' ''VULKAN'' =
              Inr (map (\<lambda>a. filter (\<lambda>l. \<not> lib_present sys a l)
                               (remdups (dict_get_list LIBRARIES ''VULKAN'')))
                     (runtime_architectures sys), sys'')"
    by (rule bspec)
  then show ?thesis
    unfolding s example_report .
qed

section \<open>Supported features and the example listing\<close>

lemma ACO_not_required: "''ACO'' \<notin> set (requirements host)"
  by (simp add: requirements_def get_requirements_def required_components_def
      optional_components_def)

lemma runtime_architectures_first: "\<exists>rest. runtime_architectures sys = ''i386'' # rest"
  by (simp add: runtime_architectures_def)

text \<open>
  The claim C1 as written fails: on the x86_64 example host the inventory holds a
  record of \<open>libvulkan.so.1\<close> tagged x86_64, the one library of \<open>VULKAN\<close>, and
  \<open>is_feature_supported("VULKAN")\<close> returns false.
\<close>

theorem feature_supported_x86_64_counterexample:
  "LinuxSystem_init (example_host []) =
     Inr (example_system,
          [Error ''Invalid ldconfig line: libbroken.so.1 => /usr/lib/libbroken.so.1''])
   \<and> arch example_system = Some ''x86_64''
   \<and> ''VULKAN'' \<in> set (requirements (example_host []))
   \<and> dict_get_list LIBRARIES ''VULKAN'' = [''libvulkan.so.1'']
   \<and> lib_present example_system ''x86_64'' ''libvulkan.so.1''
   \<and> map_sum id fst (is_feature_supported example_system example_system ''VULKAN'') = Inr False"
proof -
  have "dict_get_list LIBRARIES ''VULKAN'' = [''libvulkan.so.1'']" by code_simp
  moreover have "lib_present example_system ''x86_64'' ''libvulkan.so.1''" by code_simp
  moreover have "map_sum id fst (is_feature_supported example_system example_system ''VULKAN'') = Inr False"
    by code_simp
  ultimately show ?thesis
    using example_init [of "[]"] example_arch example_requirements [of "[]"] by simp
qed

text \<open>
  C1, amended: for every requirement of the requirement set (none of them is \<open>ACO\<close>),
  \<open>is_feature_supported\<close> returns true exactly when the first list of the report of
  missing libraries is empty. The first runtime architecture is \<open>i386\<close> on every host,
  x86_64 included, so the requirement is supported exactly when each of its libraries
  has a record tagged \<open>i386\<close> in the inventory, whatever records tagged x86_64 exist.
\<close>

theorem feature_supported_first_architecture:
  "\<exists>sys lg. LinuxSystem_init host = Inr (sys, lg)
     \<and> hd (runtime_architectures sys) = ''i386''
     \<and> (\<forall>req \<in> set (requirements host).
          \<exists>ms sys'.
            get_missing_requirement_libs sys req = Inr (ms, sys')
          \<and> ms \<noteq> []
          \<and> (\<forall>LINUX_SYSTEM.
                is_feature_supported LINUX_SYSTEM sys req = Inr (hd ms = [], sys')
              \<and> is_feature_supported LINUX_SYSTEM sys req =
                  Inr (list_all (lib_present sys ''i386'') (dict_get_list LIBRARIES req), sys')))"
proof -
  from LinuxSystem_init_ok [of host] obtain sys lg where i: "LinuxSystem_init host = Inr (sys, lg)"
    by blast
  obtain rest where ra: "runtime_architectures sys = ''i386'' # rest"
    using runtime_architectures_first by blast
  have "\<exists>ms sys'.
            get_missing_requirement_libs sys req = Inr (ms, sys')
          \<and> ms \<noteq> []
          \<and> (\<forall>LINUX_SYSTEM.
                is_feature_supported LINUX_SYSTEM sys req = Inr (hd ms = [], sys')
              \<and> is_feature_supported LINUX_SYSTEM sys req =
                  Inr (list_all (lib_present sys ''i386'') (dict_get_list LIBRARIES req), sys'))"
    if req: "req \<in> set (requirements host)" for req
  proof -
    from req ACO_not_required have na: "req \<noteq> ''ACO''" by blast
    let ?ms = "map (\<lambda>a. filter (\<lambda>l. \<not> lib_present sys a l) (remdups (dict_get_list LIBRARIES req)))
                 (runtime_architectures sys)"
    from report_after_init [OF i req] obtain sys'
      where g: "get_missing_requirement_libs sys req = Inr (?ms, sys')"
      by blast
    have ne: "?ms \<noteq> []" using ra by simp
    have hd: "hd ?ms = filter (\<lambda>l. \<not> lib_present sys ''i386'' l) (remdups (dict_get_list LIBRARIES req))"
      using ra by simp
    have f1: "is_feature_supported LINUX_SYSTEM sys req = Inr (hd ?ms = [], sys')" for LINUX_SYSTEM
      using g na ne by (cases ?ms) (simp_all add: is_feature_supported_def)
    have "(hd ?ms = []) = list_all (lib_present sys ''i386'') (dict_get_list LIBRARIES req)"
      unfolding hd by (auto simp: filter_empty_conv list_all_iff)
    with f1 have "is_feature_supported LINUX_SYSTEM sys req =
              Inr (list_all (lib_present sys ''i386'') (dict_get_list LIBRARIES req), sys')"
      for LINUX_SYSTEM
      by simp
    with g ne f1 show ?thesis by blast
  qed
  with i ra show ?thesis by auto
qed

theorem feature_supported_first_architecture_witness:
  "\<exists>sys'. is_feature_supported example_system example_system ''VULKAN'' = Inr (False, sys')"
proof -
  from feature_supported_first_architecture [of "example_host []"] obtain sys lg
    where i: "LinuxSystem_init (example_host []) = Inr (sys, lg)"
      and r: "\<forall>req \<in> set (requirements (example_host [])).
          \<exists>ms sys'.
            get_missing_requirement_libs sys req = Inr (ms, sys')
          \<and> ms \<noteq> []
          \<and> (\<forall>LINUX_SYSTEM.
                is_feature_supported LINUX_SYSTEM sys req = Inr (hd ms = [], sys')
              \<and> is_feature_supported LINUX_SYSTEM sys req =
                  Inr (list_all (lib_present sys ''i386'') (dict_get_list LIBRARIES req), sys'))"
    by blast
  from i have s: "sys = example_system" by (simp add: example_init)
  have e: "list_all (lib_present example_system ''i386'') (dict_get_list LIBRARIES ''VULKAN'') = False"
    by code_simp
  from r example_requirements [of "[]"]
  have "\<exists>ms sys'.
            get_missing_requirement_libs sys ''VULKAN'' = Inr (ms, sys')
          \<and> ms \<noteq> []
          \<and> (\<forall>LINUX_SYSTEM.
                is_feature_supported LINUX_SYSTEM sys ''VULKAN'' = Inr (hd ms = [], sys')
              \<and> is_feature_supported LINUX_SYSTEM sys ''VULKAN'' =
                  Inr (list_all (lib_present sys ''i386'') (dict_get_list LIBRARIES ''VULKAN''), sys'))"
    by (rule bspec)
  then show ?thesis
    unfolding s e by blast
qed

text \<open>
  C6: \<open>get_shared_libraries\<close> never raises: it returns the inventory built from the
  lines that parse, and logs one error for each line that does not. On the example host,
  whose listing has a line for \<open>libGL.so.1\<close>, one for \<open>libvulkan.so.1\<close> (both x86-64)
  and one malformed line, the inventory it returns has the two entries, the system holds
  these two records, the runtime architectures are \<open>i386\<close> and \<open>x86_64\<close>, and the report
  for \<open>VULKAN\<close> is \<open>[["libvulkan.so.1"], []]\<close>.
\<close>

theorem malformed_line_skipped:
  "get_shared_libraries sys ldconfig_libs =
     Inr (fold (\<lambda>lib d. dd_append d (name lib) lib)
            (filter (\<lambda>lib. SharedLibrary_arch lib \<in> set (runtime_architectures sys))
               (parsed_records ldconfig_libs)) [],
          map (\<lambda>l. Error (''Invalid ldconfig line: '' @ l)) (malformed_lines ldconfig_libs))
   \<and> get_ldconfig_libs (example_host dirs) =
       ([''libGL.so.1 (libc6,x86-64) => /usr/lib/x86_64-linux-gnu/libGL.so.1'',
         ''libvulkan.so.1 (libc6,x86-64) => /usr/lib/x86_64-linux-gnu/libvulkan.so.1'',
         ''libbroken.so.1 => /usr/lib/libbroken.so.1''], [])
   \<and> get_shared_libraries example_system (fst (get_ldconfig_libs (example_host dirs))) =
       Inr ([(''libGL.so.1'', [libGL_record]), (''libvulkan.so.1'', [libvulkan_record])],
            [Error ''Invalid ldconfig line: libbroken.so.1 => /usr/lib/libbroken.so.1''])
   \<and> LinuxSystem_init (example_host dirs) =
       Inr (example_system,
            [Error ''Invalid ldconfig line: libbroken.so.1 => /usr/lib/libbroken.so.1''])
   \<and> runtime_architectures example_system = [''i386'', ''x86_64'']
   \<and> concat (map snd (shared_libraries example_system)) = [libGL_record, libvulkan_record]
   \<and> map_sum id fst (get_missing_requirement_libs example_system ''VULKAN'') =
       Inr [[''libvulkan.so.1''], []]"
proof -
  have "get_shared_libraries sys ldconfig_libs =
     Inr (fold (\<lambda>lib d. dd_append d (name lib) lib)
            (filter (\<lambda>lib. SharedLibrary_arch lib \<in> set (runtime_architectures sys))
               (parsed_records ldconfig_libs)) [],
          map (\<lambda>l. Error (''Invalid ldconfig line: '' @ l)) (malformed_lines ldconfig_libs))"
    using get_shared_libraries_loop_char [of "runtime_architectures sys" ldconfig_libs "[]" "[]"]
    by (simp add: get_shared_libraries_def)
  moreover have l: "get_ldconfig_libs (example_host dirs) =
       ([''libGL.so.1 (libc6,x86-64) => /usr/lib/x86_64-linux-gnu/libGL.so.1'',
         ''libvulkan.so.1 (libc6,x86-64) => /usr/lib/x86_64-linux-gnu/libvulkan.so.1'',
         ''libbroken.so.1 => /usr/lib/libbroken.so.1''], [])"
    by code_simp
  moreover have "get_shared_libraries example_system
       [''libGL.so.1 (libc6,x86-64) => /usr/lib/x86_64-linux-gnu/libGL.so.1'',
         ''libvulkan.so.1 (libc6,x86-64) => /usr/lib/x86_64-linux-gnu/libvulkan.so.1'',
         ''libbroken.so.1 => /usr/lib/libbroken.so.1''] =
       Inr ([(''libGL.so.1'', [libGL_record]), (''libvulkan.so.1'', [libvulkan_record])],
            [Error ''Invalid ldconfig line: libbroken.so.1 => /usr/lib/libbroken.so.1''])"
    by code_simp
  moreover have "runtime_architectures example_system = [''i386'', ''x86_64'']"
    by code_simp
  moreover have "concat (map snd (shared_libraries example_system)) = [libGL_record, libvulkan_record]"
    by (simp add: example_system_def)
  moreover have "map_sum id fst (get_missing_requirement_libs example_system ''VULKAN'') =
       Inr [[''libvulkan.so.1''], []]"
    by code_simp
  ultimately show ?thesis
    using example_init [of dirs] by simp
qed

end
